theory Spec2Isabelle
  imports Main "HOL-Library.AList"
begin

section \<open>JavaScript values\<close>

text \<open>
  Property bags, filter values and plugin configuration are JSON data. A number is modelled
  as an integer (no property below depends on fractions); an object is the list of its own
  enumerable entries in insertion order.
\<close>

datatype jsval =
    JUndefined
  | JNull
  | JBool bool
  | JNum int
  | JStr string
  | JArr "jsval list"
  | JObj "(string \<times> jsval) list"

type_synonym Properties = "(string \<times> jsval) list"

datatype jstype = TUndefined | TObject | TBoolean | TNumber | TString

fun typeof :: "jsval \<Rightarrow> jstype" where
  "typeof JUndefined = TUndefined"
| "typeof JNull = TObject"
| "typeof (JBool b) = TBoolean"
| "typeof (JNum n) = TNumber"
| "typeof (JStr s) = TString"
| "typeof (JArr vs) = TObject"
| "typeof (JObj kvs) = TObject"

text \<open>Truthiness of a value, as \<^verbatim>\<open>if (v)\<close> and \<^verbatim>\<open>a || b\<close> read it.\<close>

fun truthy :: "jsval \<Rightarrow> bool" where
  "truthy JUndefined = False"
| "truthy JNull = False"
| "truthy (JBool b) = b"
| "truthy (JNum n) = (n \<noteq> 0)"
| "truthy (JStr s) = (s \<noteq> [])"
| "truthy (JArr vs) = True"
| "truthy (JObj kvs) = True"

text \<open>
  \<^verbatim>\<open>a === b\<close>: primitives compare by value; two arrays or objects that were parsed
  separately are different references and never strictly equal.
\<close>

definition strictEq :: "jsval \<Rightarrow> jsval \<Rightarrow> bool" where
  "strictEq a b = (case a of JArr vs \<Rightarrow> False | JObj kvs \<Rightarrow> False | v \<Rightarrow> a = b)"

text \<open>\<^verbatim>\<open>obj[key]\<close> on a data object: the own entry, or \<^verbatim>\<open>undefined\<close>.\<close>

definition getProp :: "Properties \<Rightarrow> string \<Rightarrow> jsval" where
  "getProp obj k = (case map_of obj k of None \<Rightarrow> JUndefined | Some v \<Rightarrow> v)"

text \<open>\<^verbatim>\<open>s.includes(t)\<close>: \<open>t\<close> occurs in \<open>s\<close> as a contiguous substring.\<close>

fun str_includes :: "string \<Rightarrow> string \<Rightarrow> bool" where
  "str_includes [] t = (t = [])"
| "str_includes (c # s) t = (take (length t) (c # s) = t \<or> str_includes s t)"

text \<open>
  The parts of the language runtime that the action matcher calls and that are not code of
  this repository: case folding, regular expressions (\<open>None\<close> when the pattern does not
  compile and \<^verbatim>\<open>new RegExp\<close> throws) and the relational comparison \<^verbatim>\<open>a < b\<close>.
\<close>

record js_runtime =
  toLowerCase :: "string \<Rightarrow> string"
  regExpTest :: "string \<Rightarrow> string \<Rightarrow> bool option"
  lessThan :: "jsval \<Rightarrow> jsval \<Rightarrow> bool"

section \<open>Action matching (src/worker/ingestion/action-matcher.ts)\<close>

datatype PropertyOperator =
    Exact | IsNot | IContains | NotIContains | Regex | NotRegex
  | GreaterThan | LessThan | IsSet | IsNotSet
  | OtherOperator string

datatype PropertyFilterType = EventFilter | PersonFilter | ElementFilter | CohortFilter | OtherFilter string

record PropertyFilter =
  f_type :: PropertyFilterType
  f_key :: string
  f_value :: jsval
  f_operator :: PropertyOperator

record PluginEvent =
  ev_event :: string
  ev_team_id :: int
  ev_properties :: "Properties option"
  ev_timestamp :: "string option"
  ev_offset :: "int option"

record ActionStep =
  step_event :: "string option"
  step_properties :: "PropertyFilter list option"

datatype match_error = UnknownOperator PropertyOperator | InvalidRegExp string

text \<open>\<^verbatim>\<open>Array.prototype.some\<close> and \<^verbatim>\<open>every\<close> with a callback that may throw.\<close>

fun someE :: "('a \<Rightarrow> 'e + bool) \<Rightarrow> 'a list \<Rightarrow> 'e + bool" where
  "someE f [] = Inr False"
| "someE f (x # xs) =
     (case f x of Inl e \<Rightarrow> Inl e | Inr b \<Rightarrow> if b then Inr True else someE f xs)"

fun everyE :: "('a \<Rightarrow> 'e + bool) \<Rightarrow> 'a list \<Rightarrow> 'e + bool" where
  "everyE f [] = Inr True"
| "everyE f (x # xs) =
     (case f x of Inl e \<Rightarrow> Inl e | Inr b \<Rightarrow> if b then everyE f xs else Inr False)"

fun propertyOperatorToRequiredValueType :: "PropertyOperator \<Rightarrow> jstype option" where
  "propertyOperatorToRequiredValueType IContains = Some TString"
| "propertyOperatorToRequiredValueType NotIContains = Some TString"
| "propertyOperatorToRequiredValueType Regex = Some TString"
| "propertyOperatorToRequiredValueType NotRegex = Some TString"
| "propertyOperatorToRequiredValueType other = None"

text \<open>The string behind a value that the type guard has already found to be a string.\<close>

fun strOf :: "jsval \<Rightarrow> string" where
  "strOf (JStr s) = s"
| "strOf v = []"

text \<open>
  The \<^verbatim>\<open>switch (filter.operator)\<close>: the test applied to each possible value, or the
  error thrown for an operator the switch does not know.
\<close>

fun operatorTest ::
  "js_runtime \<Rightarrow> PropertyOperator \<Rightarrow> jsval \<Rightarrow> match_error + (jsval \<Rightarrow> match_error + bool)" where
  "operatorTest rt Exact foundValue = Inr (\<lambda>possibleValue. Inr (strictEq possibleValue foundValue))"
| "operatorTest rt IsNot foundValue = Inr (\<lambda>possibleValue. Inr (\<not> strictEq possibleValue foundValue))"
| "operatorTest rt IContains foundValue =
     Inr (\<lambda>possibleValue. Inr (typeof possibleValue = TString \<and>
        str_includes (toLowerCase rt (strOf foundValue)) (toLowerCase rt (strOf possibleValue))))"
| "operatorTest rt NotIContains foundValue =
     Inr (\<lambda>possibleValue. Inr (typeof possibleValue = TString \<and>
        \<not> str_includes (toLowerCase rt (strOf foundValue)) (toLowerCase rt (strOf possibleValue))))"
| "operatorTest rt Regex foundValue =
     Inr (\<lambda>possibleValue.
        if typeof possibleValue = TString
        then (case regExpTest rt (strOf possibleValue) (strOf foundValue) of
                None \<Rightarrow> Inl (InvalidRegExp (strOf possibleValue))
              | Some b \<Rightarrow> Inr b)
        else Inr False)"
| "operatorTest rt NotRegex foundValue =
     Inr (\<lambda>possibleValue.
        if typeof possibleValue = TString
        then (case regExpTest rt (strOf possibleValue) (strOf foundValue) of
                None \<Rightarrow> Inl (InvalidRegExp (strOf possibleValue))
              | Some b \<Rightarrow> Inr (\<not> b))
        else Inr False)"
| "operatorTest rt GreaterThan foundValue = Inr (\<lambda>possibleValue. Inr (lessThan rt possibleValue foundValue))"
| "operatorTest rt LessThan foundValue = Inr (\<lambda>possibleValue. Inr (lessThan rt foundValue possibleValue))"
| "operatorTest rt IsSet foundValue = Inr (\<lambda>possibleValue. Inr (foundValue \<noteq> JUndefined))"
| "operatorTest rt IsNotSet foundValue = Inr (\<lambda>possibleValue. Inr (foundValue = JUndefined))"
| "operatorTest rt (OtherOperator s) foundValue = Inl (UnknownOperator (OtherOperator s))"

definition checkPropertiesAgainstFilter ::
  "js_runtime \<Rightarrow> Properties option \<Rightarrow> PropertyFilter \<Rightarrow> match_error + bool" where
  "checkPropertiesAgainstFilter rt properties flt =
     (case properties of
        None \<Rightarrow> Inr False
      | Some props \<Rightarrow>
          (let possibleValues = (case f_value flt of JArr vs \<Rightarrow> vs | v \<Rightarrow> [v]);
               foundValue = getProp props (f_key flt);
               requiredValueType = propertyOperatorToRequiredValueType (f_operator flt)
           in if requiredValueType \<noteq> None \<and> Some (typeof foundValue) \<noteq> requiredValueType
              then Inr False
              else (case operatorTest rt (f_operator flt) foundValue of
                      Inl e \<Rightarrow> Inl e
                    | Inr test \<Rightarrow> someE test possibleValues)))"

definition checkEventAgainstEventFilter ::
  "js_runtime \<Rightarrow> PluginEvent \<Rightarrow> PropertyFilter \<Rightarrow> match_error + bool" where
  "checkEventAgainstEventFilter rt event flt = checkPropertiesAgainstFilter rt (ev_properties event) flt"

definition checkEventAgainstPersonFilter ::
  "js_runtime \<Rightarrow> PluginEvent \<Rightarrow> PropertyFilter \<Rightarrow> match_error + bool" where
  "checkEventAgainstPersonFilter rt event flt = checkPropertiesAgainstFilter rt (ev_properties event) flt"

text \<open>An element is itself read as a property bag (its fields by name).\<close>

definition checkEventAgainstElementFilter ::
  "js_runtime \<Rightarrow> Properties list \<Rightarrow> PropertyFilter \<Rightarrow> match_error + bool" where
  "checkEventAgainstElementFilter rt elements flt =
     someE (\<lambda>element. checkPropertiesAgainstFilter rt (Some element) flt) elements"

definition checkEventAgainstCohortFilter ::
  "PluginEvent \<Rightarrow> PropertyFilter \<Rightarrow> match_error + bool" where
  "checkEventAgainstCohortFilter event flt = Inr False"

definition checkEventAgainstFilter ::
  "js_runtime \<Rightarrow> PluginEvent \<Rightarrow> Properties list \<Rightarrow> PropertyFilter \<Rightarrow> match_error + bool" where
  "checkEventAgainstFilter rt event elements flt =
     (case f_type flt of
        EventFilter \<Rightarrow> checkEventAgainstEventFilter rt event flt
      | PersonFilter \<Rightarrow> checkEventAgainstPersonFilter rt event flt
      | ElementFilter \<Rightarrow> checkEventAgainstElementFilter rt elements flt
      | CohortFilter \<Rightarrow> checkEventAgainstCohortFilter event flt
      | OtherFilter s \<Rightarrow> Inr False)"

definition checkStepFilters ::
  "js_runtime \<Rightarrow> PluginEvent \<Rightarrow> Properties list \<Rightarrow> ActionStep \<Rightarrow> match_error + bool" where
  "checkStepFilters rt event elements step =
     (case step_properties step of
        None \<Rightarrow> Inr True
      | Some filters \<Rightarrow>
          if filters \<noteq> [] then everyE (checkEventAgainstFilter rt event elements) filters
          else Inr True)"

text \<open>
  The elements that \<^verbatim>\<open>ActionMatcher.match\<close> hands to the checks:
  \<^verbatim>\<open>event.properties?.['$elements']\<close>, extracted when truthy, else the empty list.
  \<^verbatim>\<open>extractElements\<close> lives in utils and is a parameter here.
\<close>

definition matchElements :: "(jsval \<Rightarrow> Properties list) \<Rightarrow> PluginEvent \<Rightarrow> Properties list" where
  "matchElements extractElements event =
     (let rawElements = (case ev_properties event of
                           None \<Rightarrow> JUndefined
                         | Some props \<Rightarrow> getProp props ''$elements'')
      in if truthy rawElements then extractElements rawElements else [])"

text \<open>A runtime and a filter for the concrete runs below.\<close>

definition sampleRuntime :: js_runtime where
  "sampleRuntime =
     \<lparr>toLowerCase = (\<lambda>s. s), regExpTest = (\<lambda>pattern s. Some (pattern = s)),
      lessThan = (\<lambda>a b. case (a, b) of (JNum x, JNum y) \<Rightarrow> x < y | other \<Rightarrow> False)\<rparr>"

definition isNotSetFilter :: PropertyFilter where
  "isNotSetFilter =
     \<lparr>f_type = EventFilter, f_key = ''$browser'', f_value = JUndefined, f_operator = IsNotSet\<rparr>"

section \<open>Timestamp resolution (EventsProcessor.handleTimestamp)\<close>

text \<open>
  A \<^verbatim>\<open>DateTime\<close> is the number of milliseconds since the epoch, a \<^verbatim>\<open>Duration\<close> a number
  of milliseconds. \<^verbatim>\<open>DateTime.fromISO\<close> belongs to the luxon library and is a parameter:
  \<open>Inl\<close> when the string is not a date (luxon throws, or hands back an invalid DateTime
  that poisons every later operation on it).
\<close>

datatype time_error = InvalidDateTime string

definition handleTimestamp ::
  "(string \<Rightarrow> time_error + int) \<Rightarrow> PluginEvent \<Rightarrow> int \<Rightarrow> int option \<Rightarrow> time_error + int" where
  "handleTimestamp fromISO data now sentAt =
     (let offsetRule = (case ev_offset data of
                          None \<Rightarrow> Inr now
                        | Some ms \<Rightarrow> if ms \<noteq> 0 then Inr (now - ms) else Inr now)
      in case ev_timestamp data of
           None \<Rightarrow> offsetRule
         | Some ts \<Rightarrow>
             if ts \<noteq> [] then
               (case sentAt of
                  Some sent \<Rightarrow>
                    (case fromISO ts of
                       Inr t \<Rightarrow> Inr (now + (t - sent))
                     | Inl caught \<Rightarrow> fromISO ts)
                | None \<Rightarrow> fromISO ts)
             else offsetRule)"

text \<open>
  The precedence as section 4.4 of the specification words it, for comparison: a timestamp
  that does not parse counts as no timestamp, so that the next rule applies.
\<close>

definition specTimestamp ::
  "(string \<Rightarrow> time_error + int) \<Rightarrow> PluginEvent \<Rightarrow> int \<Rightarrow> int option \<Rightarrow> int" where
  "specTimestamp fromISO data now sentAt =
     (let parsed = (case ev_timestamp data of
                      None \<Rightarrow> None
                    | Some ts \<Rightarrow> (case fromISO ts of Inl e \<Rightarrow> None | Inr t \<Rightarrow> Some t))
      in case parsed of
           Some t \<Rightarrow> (case sentAt of Some sent \<Rightarrow> now + (t - sent) | None \<Rightarrow> t)
         | None \<Rightarrow> (case ev_offset data of Some ms \<Rightarrow> now - ms | None \<Rightarrow> now))"

text \<open>A parser for the concrete runs below: it knows one ISO string and rejects the rest.\<close>

definition sampleFromISO :: "string \<Rightarrow> time_error + int" where
  "sampleFromISO s = (if s = ''1970-01-01T00:00:05.000Z'' then Inr 5000 else Inl (InvalidDateTime s))"

section \<open>Team caches (EventsProcessor.storeNamesAndProperties)\<close>

text \<open>
  \<^verbatim>\<open>key in array\<close> asks whether the array has a property of that name: an index below its
  length, \<^verbatim>\<open>length\<close>, or a member inherited from \<^verbatim>\<open>Array.prototype\<close> and
  \<^verbatim>\<open>Object.prototype\<close>. It does not look at the elements.
\<close>

definition isDigit :: "char \<Rightarrow> bool" where
  "isDigit c = (48 \<le> (of_char c :: nat) \<and> (of_char c :: nat) \<le> 57)"

definition decimalValue :: "string \<Rightarrow> nat" where
  "decimalValue s = foldl (\<lambda>acc c. 10 * acc + ((of_char c :: nat) - 48)) 0 s"

definition canonicalIndex :: "string \<Rightarrow> nat option" where
  "canonicalIndex s =
     (if s \<noteq> [] \<and> list_all isDigit s \<and> (s = ''0'' \<or> hd s \<noteq> CHR ''0'')
      then Some (decimalValue s) else None)"

definition arrayPrototypeKeys :: "string list" where
  "arrayPrototypeKeys =
     [''constructor'', ''concat'', ''copyWithin'', ''fill'', ''find'', ''findIndex'',
      ''lastIndexOf'', ''pop'', ''push'', ''reverse'', ''shift'', ''unshift'', ''slice'',
      ''sort'', ''splice'', ''includes'', ''indexOf'', ''join'', ''keys'', ''entries'',
      ''values'', ''forEach'', ''filter'', ''flat'', ''flatMap'', ''map'', ''every'', ''some'',
      ''reduce'', ''reduceRight'', ''toLocaleString'', ''toString'', ''hasOwnProperty'',
      ''isPrototypeOf'', ''propertyIsEnumerable'', ''valueOf'', ''__proto__'',
      ''__defineGetter__'', ''__defineSetter__'', ''__lookupGetter__'', ''__lookupSetter__'']"

definition inArray :: "string \<Rightarrow> 'a list \<Rightarrow> bool" where
  "inArray k arr =
     ((case canonicalIndex k of Some i \<Rightarrow> i < length arr | None \<Rightarrow> False)
      \<or> k = ''length'' \<or> k \<in> set arrayPrototypeKeys)"

datatype usage_entry = EventUsage string | PropertyUsage string

record Team =
  team_id :: int
  ingested_event :: bool
  event_names :: "string list option"
  event_names_with_usage :: "usage_entry list"
  event_properties :: "string list option"
  event_properties_with_usage :: "usage_entry list"
  event_properties_numerical :: "string list option"

text \<open>One round of the loop over \<^verbatim>\<open>Object.entries(properties)\<close>.\<close>

definition storeProperty :: "Team \<times> bool \<Rightarrow> string \<times> jsval \<Rightarrow> Team \<times> bool" where
  "storeProperty st kv =
     (let team = fst st; save = snd st; k = fst kv; v = snd kv;
          st1 = (case event_properties team of
                   Some props \<Rightarrow>
                     if \<not> inArray k props
                     then (team\<lparr>event_properties := Some (props @ [k]),
                                event_properties_with_usage :=
                                  event_properties_with_usage team @ [PropertyUsage k]\<rparr>, True)
                     else (team, save)
                 | None \<Rightarrow> (team, save));
          team1 = fst st1; save1 = snd st1
      in if typeof v = TNumber
         then (case event_properties_numerical team1 of
                 Some nums \<Rightarrow>
                   if \<not> inArray k nums
                   then (team1\<lparr>event_properties_numerical := Some (nums @ [k])\<rparr>, True)
                   else (team1, save1)
               | None \<Rightarrow> (team1, save1))
         else (team1, save1))"

text \<open>
  The result is the team object as the call leaves it and, when \<^verbatim>\<open>save\<close> is set, the
  row written by the UPDATE (its fifth parameter is \<^verbatim>\<open>event_names_with_usage\<close>).
\<close>

definition storeNamesAndProperties :: "Team \<Rightarrow> string \<Rightarrow> Properties \<Rightarrow> Team \<times> Team option" where
  "storeNamesAndProperties team0 event properties =
     (let st0 = (if \<not> ingested_event team0 then (team0\<lparr>ingested_event := True\<rparr>, True)
                 else (team0, False));
          team1 = fst st0;
          st1 = (case event_names team1 of
                   Some names \<Rightarrow>
                     if \<not> inArray event names
                     then (team1\<lparr>event_names := Some (names @ [event]),
                                 event_names_with_usage :=
                                   event_names_with_usage team1 @ [EventUsage event]\<rparr>, True)
                     else st0
                 | None \<Rightarrow> st0);
          st2 = foldl storeProperty st1 properties;
          team2 = fst st2
      in (team2,
          if snd st2
          then Some (team2\<lparr>event_properties_with_usage := event_names_with_usage team2\<rparr>)
          else None))"

text \<open>
  One list of the team before and after a call: an absent list stays absent, a present one
  is an initial segment of the later one.
\<close>

definition keepsEntries :: "string list option \<Rightarrow> string list option \<Rightarrow> bool" where
  "keepsEntries old new =
     (case old of
        None \<Rightarrow> new = None
      | Some xs \<Rightarrow> (case new of None \<Rightarrow> False | Some zs \<Rightarrow> take (length xs) zs = xs))"

definition sampleTeam :: Team where
  "sampleTeam =
     \<lparr>team_id = 2, ingested_event = True,
      event_names = Some [''$pageview''],
      event_names_with_usage = [EventUsage ''$pageview''],
      event_properties = Some [''$browser'', ''price''],
      event_properties_with_usage = [PropertyUsage ''$browser'', PropertyUsage ''price''],
      event_properties_numerical = Some [''price'']\<rparr>"

section \<open>The relational store (class DB)\<close>

record Person =
  p_id :: int
  p_team_id :: int
  p_created_at :: int
  p_properties :: Properties
  p_is_identified :: bool
  p_uuid :: string

record PersonDistinctId =
  pdi_id :: int
  pdi_person_id :: int
  pdi_distinct_id :: string
  pdi_team_id :: int

record CohortPeople =
  cp_id :: int
  cp_cohort_id :: int
  cp_person_id :: int

text \<open>A \<^verbatim>\<open>Partial<Person>\<close>: the fields an UPDATE sets.\<close>

record PersonUpdate =
  set_created_at :: "int option"
  set_properties :: "Properties option"
  set_is_identified :: "bool option"

text \<open>A query parameter: a number, or a whole object handed over in its place.\<close>

datatype sql_param = IntParam int | ObjectParam Person

datatype statement =
    SelectPerson int string
  | InsertPerson
  | UpdatePerson int
  | DeletePerson int
  | SelectDistinctIds sql_param int
  | InsertDistinctId string int int
  | UpdateDistinctId int
  | SelectCohortPeople int
  | UpdateCohortPeople int

datatype db_error =
    UniqueViolation string
  | InvalidTextRepresentation
  | QueryFailed
  | TypeError string

datatype kafka_message = PersonMessage Person | PersonUniqueIdMessage PersonDistinctId

text \<open>
  The state the processor works on: the three tables with their id sequences, the
  statements issued so far, the messages sent to the broker when a producer is attached, and
  the rejections of promises that nobody awaited. \<open>insertPersonError\<close> is the error, if
  any, with which the store rejects the next insertion of a person (a cause outside the
  model, such as a lost connection); it is consumed when raised.
\<close>

record DB =
  persons :: "Person list"
  distinctIds :: "PersonDistinctId list"
  cohortPeople :: "CohortPeople list"
  nextPersonId :: int
  nextDistinctIdId :: int
  insertPersonError :: "db_error option"
  kafkaProducer :: bool
  statements :: "statement list"
  produced :: "kafka_message list"
  unhandledRejections :: "db_error list"

definition postgresQuery :: "statement \<Rightarrow> DB \<Rightarrow> DB" where
  "postgresQuery st db = db\<lparr>statements := statements db @ [st]\<rparr>"

definition sendIfProducer :: "kafka_message \<Rightarrow> DB \<Rightarrow> DB" where
  "sendIfProducer m db = (if kafkaProducer db then db\<lparr>produced := produced db @ [m]\<rparr> else db)"

text \<open>
  \<^verbatim>\<open>await\<close>: the continuation runs on the value, a rejection is passed on. A call whose
  promise is dropped (\<open>detach\<close>) still has its effects, but its rejection reaches no
  \<^verbatim>\<open>catch\<close>: it is recorded as unhandled.
\<close>

definition await ::
  "(db_error + 'a) \<times> DB \<Rightarrow> ('a \<Rightarrow> DB \<Rightarrow> (db_error + 'b) \<times> DB) \<Rightarrow> (db_error + 'b) \<times> DB" where
  "await r k = (case fst r of Inl e \<Rightarrow> (Inl e, snd r) | Inr x \<Rightarrow> k x (snd r))"

definition detach :: "(db_error + 'a) \<times> DB \<Rightarrow> DB" where
  "detach r =
     (case fst r of
        Inl e \<Rightarrow> (snd r)\<lparr>unhandledRejections := unhandledRejections (snd r) @ [e]\<rparr>
      | Inr x \<Rightarrow> snd r)"

fun forEachAwait ::
  "('a \<Rightarrow> DB \<Rightarrow> (db_error + unit) \<times> DB) \<Rightarrow> 'a list \<Rightarrow> DB \<Rightarrow> (db_error + unit) \<times> DB" where
  "forEachAwait f [] db = (Inr (), db)"
| "forEachAwait f (x # xs) db = await (f x db) (\<lambda>u. forEachAwait f xs)"

text \<open>\<^verbatim>\<open>await\<close> of a call whose value is not used: only the state goes on.\<close>

definition await_unit ::
  "(DB \<Rightarrow> (db_error + unit) \<times> DB) \<Rightarrow> (DB \<Rightarrow> (db_error + 'b) \<times> DB) \<Rightarrow> DB \<Rightarrow> (db_error + 'b) \<times> DB" where
  "await_unit f k db = await (f db) (\<lambda>u. k)"

text \<open>
  \<^verbatim>\<open>{ ...a, ...b }\<close>: the entries of \<open>b\<close> written over \<open>a\<close>, a key keeping its first
  position.
\<close>

definition assign :: "Properties \<Rightarrow> Properties \<Rightarrow> Properties" where
  "assign target source = foldl (\<lambda>acc kv. AList.update (fst kv) (snd kv) acc) target source"

definition objectSpread :: "Properties list \<Rightarrow> Properties" where
  "objectSpread sources = foldl assign [] sources"

definition hasDistinctId :: "PersonDistinctId list \<Rightarrow> int \<Rightarrow> string \<Rightarrow> int \<Rightarrow> bool" where
  "hasDistinctId rows teamId distinctId personId =
     list_ex (\<lambda>d. pdi_person_id d = personId \<and> pdi_team_id d = teamId
                   \<and> pdi_distinct_id d = distinctId) rows"

text \<open>The first row of the join of persons with their distinct ids, if there is one.\<close>

definition findPerson :: "DB \<Rightarrow> int \<Rightarrow> string \<Rightarrow> Person option" where
  "findPerson db teamId distinctId =
     List.find (\<lambda>p. p_team_id p = teamId
                     \<and> hasDistinctId (distinctIds db) teamId distinctId (p_id p)) (persons db)"

definition fetchPerson :: "int \<Rightarrow> string \<Rightarrow> DB \<Rightarrow> Person option \<times> DB" where
  "fetchPerson teamId distinctId db =
     (findPerson db teamId distinctId, postgresQuery (SelectPerson teamId distinctId) db)"

definition createPerson ::
  "int \<Rightarrow> Properties \<Rightarrow> int \<Rightarrow> bool \<Rightarrow> string \<Rightarrow> DB \<Rightarrow> (db_error + Person) \<times> DB" where
  "createPerson createdAt properties teamId isIdentified uuid db =
     (case insertPersonError db of
        Some e \<Rightarrow> (Inl e, postgresQuery InsertPerson (db\<lparr>insertPersonError := None\<rparr>))
      | None \<Rightarrow>
          (let personCreated =
                 \<lparr>p_id = nextPersonId db, p_team_id = teamId, p_created_at = createdAt,
                  p_properties = properties, p_is_identified = isIdentified, p_uuid = uuid\<rparr>
           in (Inr personCreated,
               sendIfProducer (PersonMessage personCreated)
                 (postgresQuery InsertPerson
                    (db\<lparr>persons := persons db @ [personCreated],
                        nextPersonId := nextPersonId db + 1\<rparr>)))))"

definition applyUpdate :: "PersonUpdate \<Rightarrow> Person \<Rightarrow> Person" where
  "applyUpdate u p =
     p\<lparr>p_created_at := (case set_created_at u of Some t \<Rightarrow> t | None \<Rightarrow> p_created_at p),
       p_properties := (case set_properties u of Some ps \<Rightarrow> ps | None \<Rightarrow> p_properties p),
       p_is_identified :=
         (case set_is_identified u of Some b \<Rightarrow> b | None \<Rightarrow> p_is_identified p)\<rparr>"

text \<open>
  The UPDATE sets the fields of \<open>update\<close> on the row with the person's id; the value
  returned (and sent to the broker) is the in-memory \<^verbatim>\<open>{ ...person, ...update }\<close>.
\<close>

definition updatePerson :: "Person \<Rightarrow> PersonUpdate \<Rightarrow> DB \<Rightarrow> (db_error + Person) \<times> DB" where
  "updatePerson person update db =
     (let updatedPerson = applyUpdate update person
      in (Inr updatedPerson,
          sendIfProducer (PersonMessage updatedPerson)
            (postgresQuery (UpdatePerson (p_id person))
               (db\<lparr>persons := map (\<lambda>row. if p_id row = p_id person then applyUpdate update row
                                           else row) (persons db)\<rparr>))))"

definition deletePerson :: "int \<Rightarrow> DB \<Rightarrow> (db_error + unit) \<times> DB" where
  "deletePerson personId db =
     (Inr (),
      postgresQuery (DeletePerson personId)
        (db\<lparr>distinctIds := filter (\<lambda>d. pdi_person_id d \<noteq> personId) (distinctIds db),
            persons := filter (\<lambda>p. p_id p \<noteq> personId) (persons db)\<rparr>))"

text \<open>
  The INSERT into the distinct-id table. The store holds a unique constraint on
  \<open>(team_id, distinct_id)\<close> (specification, section 3): a second row for the pair is
  rejected.
\<close>

definition addDistinctId :: "Person \<Rightarrow> string \<Rightarrow> DB \<Rightarrow> (db_error + unit) \<times> DB" where
  "addDistinctId person distinctId db =
     (let db1 = postgresQuery (InsertDistinctId distinctId (p_id person) (p_team_id person)) db
      in if list_ex (\<lambda>d. pdi_team_id d = p_team_id person \<and> pdi_distinct_id d = distinctId)
              (distinctIds db)
         then (Inl (UniqueViolation distinctId), db1)
         else (let personDistinctIdCreated =
                     \<lparr>pdi_id = nextDistinctIdId db, pdi_person_id = p_id person,
                      pdi_distinct_id = distinctId, pdi_team_id = p_team_id person\<rparr>
               in (Inr (),
                   sendIfProducer (PersonUniqueIdMessage personDistinctIdCreated)
                     (db1\<lparr>distinctIds := distinctIds db @ [personDistinctIdCreated],
                          nextDistinctIdId := nextDistinctIdId db + 1\<rparr>))))"

definition updateDistinctId :: "PersonDistinctId \<Rightarrow> int \<Rightarrow> DB \<Rightarrow> (db_error + unit) \<times> DB" where
  "updateDistinctId personDistinctId newPersonId db =
     (Inr (),
      sendIfProducer (PersonUniqueIdMessage (personDistinctId\<lparr>pdi_person_id := newPersonId\<rparr>))
        (postgresQuery (UpdateDistinctId (pdi_id personDistinctId))
           (db\<lparr>distinctIds :=
                 map (\<lambda>d. if pdi_id d = pdi_id personDistinctId
                           then d\<lparr>pdi_person_id := newPersonId\<rparr> else d) (distinctIds db)\<rparr>)))"

text \<open>
  \<^verbatim>\<open>SELECT * FROM posthog_persondistinctid WHERE person_id = $1 AND team_id = $2\<close>. The
  column is an integer: the driver sends an object parameter as its JSON text, which the
  store rejects (invalid text representation).
\<close>

definition selectDistinctIds ::
  "sql_param \<Rightarrow> int \<Rightarrow> DB \<Rightarrow> (db_error + PersonDistinctId list) \<times> DB" where
  "selectDistinctIds personParam teamId db =
     (case personParam of
        IntParam personId \<Rightarrow>
          (Inr (filter (\<lambda>d. pdi_person_id d = personId \<and> pdi_team_id d = teamId) (distinctIds db)),
           postgresQuery (SelectDistinctIds personParam teamId) db)
      | ObjectParam obj \<Rightarrow>
          (Inl InvalidTextRepresentation, postgresQuery (SelectDistinctIds personParam teamId) db))"

definition selectCohortPeople :: "int \<Rightarrow> DB \<Rightarrow> (db_error + CohortPeople list) \<times> DB" where
  "selectCohortPeople personId db =
     (Inr (filter (\<lambda>c. cp_person_id c = personId) (cohortPeople db)),
      postgresQuery (SelectCohortPeople personId) db)"

definition updateCohortPeople :: "int \<Rightarrow> int \<Rightarrow> DB \<Rightarrow> (db_error + unit) \<times> DB" where
  "updateCohortPeople newPersonId cohortPeopleId db =
     (Inr (),
      postgresQuery (UpdateCohortPeople cohortPeopleId)
        (db\<lparr>cohortPeople :=
              map (\<lambda>c. if cp_id c = cohortPeopleId then c\<lparr>cp_person_id := newPersonId\<rparr> else c)
                (cohortPeople db)\<rparr>))"

section \<open>Identity resolution (EventsProcessor)\<close>

text \<open>
  \<open>now\<close> stands for \<^verbatim>\<open>DateTime.utc()\<close> and \<open>uuid\<close> for \<^verbatim>\<open>new UUIDT().toString()\<close>
  at the moment a person is created.
\<close>

definition updatePersonProperties ::
  "int \<Rightarrow> string \<Rightarrow> int \<Rightarrow> string \<Rightarrow> Properties \<Rightarrow> Properties \<Rightarrow> DB
     \<Rightarrow> (db_error + Person) \<times> DB" where
  "updatePersonProperties now uuid teamId distinctId properties propertiesOnce db0 =
     (let fetched = fetchPerson teamId distinctId db0;
          found =
            (case fst fetched of
               Some p \<Rightarrow> (Some p, snd fetched)
             | None \<Rightarrow>
                 (let created =
                        await (createPerson now properties teamId False uuid (snd fetched))
                          (\<lambda>personCreated. addDistinctId personCreated distinctId)
                  in case fst created of
                       Inr done \<Rightarrow> (None, snd created)
                     | Inl caught \<Rightarrow> fetchPerson teamId distinctId (snd created)))
      in case fst found of
           None \<Rightarrow> (Inl (TypeError ''personFound is undefined''), snd found)
         | Some personFound \<Rightarrow>
             updatePerson personFound
               \<lparr>set_created_at = None,
                set_properties =
                  Some (objectSpread [propertiesOnce, p_properties personFound, properties]),
                set_is_identified = None\<rparr>
               (snd found))"

text \<open>
  The first loop of mergePeople: the properties are merged on the in-memory object and the
  earliest \<^verbatim>\<open>created_at\<close> is kept.
\<close>

definition mergeProperties :: "Person \<times> int \<Rightarrow> Person \<Rightarrow> Person \<times> int" where
  "mergeProperties acc otherPerson =
     (let mergeInto = fst acc; firstSeen = snd acc
      in (mergeInto\<lparr>p_properties := objectSpread [p_properties otherPerson, p_properties mergeInto]\<rparr>,
          if p_created_at otherPerson < firstSeen then p_created_at otherPerson else firstSeen))"

text \<open>The body of the second loop, for one person to merge.\<close>

definition mergeOne :: "Person \<Rightarrow> Person \<Rightarrow> DB \<Rightarrow> (db_error + unit) \<times> DB" where
  "mergeOne mergeInto otherPerson db =
     await (selectDistinctIds (ObjectParam otherPerson) (p_team_id mergeInto) db)
       (\<lambda>otherPersonDistinctIds.
     await_unit (forEachAwait (\<lambda>personDistinctId. updateDistinctId personDistinctId (p_id mergeInto))
                   otherPersonDistinctIds)
       (\<lambda>db1.
     await (selectCohortPeople (p_id otherPerson) db1)
       (\<lambda>otherCohortPeople.
     await_unit (forEachAwait (\<lambda>cohortPeople. updateCohortPeople (p_id mergeInto) (cp_id cohortPeople))
                   otherCohortPeople)
       (deletePerson (p_id otherPerson)))))"

definition mergePeople :: "Person \<Rightarrow> Person list \<Rightarrow> DB \<Rightarrow> (db_error + unit) \<times> DB" where
  "mergePeople mergeInto0 peopleToMerge db =
     (let merged = foldl mergeProperties (mergeInto0, p_created_at mergeInto0) peopleToMerge;
          mergeInto = fst merged; firstSeen = snd merged
      in await (updatePerson mergeInto
                  \<lparr>set_created_at = Some firstSeen, set_properties = None,
                   set_is_identified = None\<rparr> db)
           (\<lambda>updated. forEachAwait (mergeOne mergeInto) peopleToMerge))"

text \<open>
  alias. The calls to addDistinctId, mergePeople and to alias itself are not awaited. In the
  first two branches the \<^verbatim>\<open>try\<close> block holds nothing but such a call, which cannot
  throw, so their \<^verbatim>\<open>catch\<close> blocks have no run; in the third the awaited createPerson
  is what the \<^verbatim>\<open>catch\<close> can see.
\<close>

function alias_fn :: "int \<Rightarrow> string \<Rightarrow> string \<Rightarrow> string \<Rightarrow> int \<Rightarrow> bool \<Rightarrow> DB \<Rightarrow> DB" where
  "alias_fn now uuid previousDistinctId distinctId teamId retryIfFailed db0 =
     (let fetchedOld = fetchPerson teamId previousDistinctId db0;
          fetchedNew = fetchPerson teamId distinctId (snd fetchedOld);
          db2 = snd fetchedNew
      in case (fst fetchedOld, fst fetchedNew) of
           (Some oldPerson, None) \<Rightarrow> detach (addDistinctId oldPerson distinctId db2)
         | (None, Some newPerson) \<Rightarrow> detach (addDistinctId newPerson previousDistinctId db2)
         | (None, None) \<Rightarrow>
             (let created = createPerson now [] teamId False uuid db2
              in case fst created of
                   Inr personCreated \<Rightarrow>
                     detach (addDistinctId personCreated previousDistinctId
                       (detach (addDistinctId personCreated distinctId (snd created))))
                 | Inl caught \<Rightarrow>
                     if retryIfFailed
                     then alias_fn now uuid previousDistinctId distinctId teamId False (snd created)
                     else snd created)
         | (Some oldPerson, Some newPerson) \<Rightarrow>
             if p_id oldPerson \<noteq> p_id newPerson
             then detach (mergePeople newPerson [oldPerson] db2)
             else db2)"
  by pat_completeness auto
termination
  by (relation "measure (\<lambda>(now, uuid, previousDistinctId, distinctId, teamId, retryIfFailed, db0).
                           if retryIfFailed then 1 else 0)") auto

text \<open>A store for the concrete runs below: nothing in it yet, a producer attached.\<close>

definition emptyDB :: DB where
  "emptyDB =
     \<lparr>persons = [], distinctIds = [], cohortPeople = [], nextPersonId = 1,
      nextDistinctIdId = 1, insertPersonError = None, kafkaProducer = True, statements = [],
      produced = [], unhandledRejections = []\<rparr>"

text \<open>
  Two persons of team 2: person 1 (first seen at 10) with distinct id \<open>anon\<close> and a cohort
  membership, person 2 (first seen at 20) with distinct id \<open>user\<close>.
\<close>

definition anonPerson :: Person where
  "anonPerson =
     \<lparr>p_id = 1, p_team_id = 2, p_created_at = 10,
      p_properties = [(''plan'', JStr ''free''), (''city'', JStr ''Oslo'')],
      p_is_identified = False, p_uuid = ''uuid-1''\<rparr>"

definition userPerson :: Person where
  "userPerson =
     \<lparr>p_id = 2, p_team_id = 2, p_created_at = 20,
      p_properties = [(''plan'', JStr ''paid'')],
      p_is_identified = True, p_uuid = ''uuid-2''\<rparr>"

definition twoPersonsDB :: DB where
  "twoPersonsDB =
     emptyDB
       \<lparr>persons := [anonPerson, userPerson],
        distinctIds :=
          [\<lparr>pdi_id = 1, pdi_person_id = 1, pdi_distinct_id = ''anon'', pdi_team_id = 2\<rparr>,
           \<lparr>pdi_id = 2, pdi_person_id = 2, pdi_distinct_id = ''user'', pdi_team_id = 2\<rparr>],
        cohortPeople := [\<lparr>cp_id = 1, cp_cohort_id = 7, cp_person_id = 1\<rparr>],
        nextPersonId := 3, nextDistinctIdId := 3\<rparr>"

text \<open>
  What the store guarantees between calls: person ids are a key and come from the sequence,
  and every distinct-id row refers to a person of its own team.
\<close>

definition wellFormed :: "DB \<Rightarrow> bool" where
  "wellFormed db =
     (distinct (map p_id (persons db))
      \<and> list_all (\<lambda>p. p_id p < nextPersonId db) (persons db)
      \<and> list_all (\<lambda>d. list_ex (\<lambda>p. p_id p = pdi_person_id d \<and> p_team_id p = pdi_team_id d)
                          (persons db)) (distinctIds db))"

section \<open>Plugin setup (src/plugins/setup.ts)\<close>

text \<open>
  Plugin, attachment and config rows carry the fields that setup reads. A \<^verbatim>\<open>Map\<close> is
  the list of its entries in insertion order; \<^verbatim>\<open>set\<close> on a key it already holds
  replaces the value in place.
\<close>

record Plugin =
  plugin_id :: int
  plugin_name :: string
  plugin_updated_at :: string

record PluginAttachmentRow =
  att_plugin_config_id :: int
  att_key :: string
  att_content_type :: string
  att_file_name :: string
  att_contents :: string

record PluginAttachment =
  content_type :: string
  file_name :: string
  contents :: string

datatype plugin_result = Returned PluginEvent | ReturnedNull | Threw string

text \<open>What a VM handle resolves to: the compiled VM with its methods, or null.\<close>

record PluginConfigVM =
  processEvent :: "(PluginEvent \<Rightarrow> plugin_result) option"

type_synonym VMHandle = "PluginConfigVM option"

record PluginConfigRow =
  pc_id :: int
  pc_team_id :: "int option"
  pc_plugin_id :: int
  pc_order :: int
  pc_updated_at :: string

record PluginConfig = PluginConfigRow +
  pc_plugin :: Plugin
  pc_attachments :: "(string \<times> PluginAttachment) list"
  pc_vm :: "VMHandle option"

record PluginsServer =
  plugins :: "(int \<times> Plugin) list"
  pluginConfigs :: "(int \<times> PluginConfig) list"
  pluginConfigsPerTeam :: "(int \<times> PluginConfig list) list"

definition addAttachment ::
  "(int \<times> (string \<times> PluginAttachment) list) list \<Rightarrow> PluginAttachmentRow
     \<Rightarrow> (int \<times> (string \<times> PluginAttachment) list) list" where
  "addAttachment attachmentsPerConfig row =
     (let attachments = (case map_of attachmentsPerConfig (att_plugin_config_id row) of
                           None \<Rightarrow> []
                         | Some a \<Rightarrow> a)
      in AList.update (att_plugin_config_id row)
           (AList.update (att_key row)
              \<lparr>content_type = att_content_type row, file_name = att_file_name row,
               contents = att_contents row\<rparr> attachments)
           attachmentsPerConfig)"

text \<open>
  One round of the loop over the config rows. The plugin of a row is looked up in
  \<^verbatim>\<open>server.plugins\<close>, the map of the previous load; a row with a falsy \<^verbatim>\<open>team_id\<close>
  (null or 0) is kept in \<open>pluginConfigs\<close> but joins no team.
\<close>

definition addConfigRow ::
  "PluginsServer \<Rightarrow> (int \<times> (string \<times> PluginAttachment) list) list
     \<Rightarrow> (int \<times> PluginConfig) list \<times> (int \<times> PluginConfig list) list \<Rightarrow> PluginConfigRow
     \<Rightarrow> (int \<times> PluginConfig) list \<times> (int \<times> PluginConfig list) list" where
  "addConfigRow server attachmentsPerConfig acc row =
     (case map_of (plugins server) (pc_plugin_id row) of
        None \<Rightarrow> acc
      | Some plugin \<Rightarrow>
          (let pluginConfig =
                 \<lparr>pc_id = pc_id row, pc_team_id = pc_team_id row, pc_plugin_id = pc_plugin_id row,
                  pc_order = pc_order row, pc_updated_at = pc_updated_at row,
                  pc_plugin = plugin,
                  pc_attachments = (case map_of attachmentsPerConfig (pc_id row) of
                                      None \<Rightarrow> []
                                    | Some a \<Rightarrow> a),
                  pc_vm = None\<rparr>;
               configs = AList.update (pc_id row) pluginConfig (fst acc)
           in case pc_team_id row of
                None \<Rightarrow> (configs, snd acc)
              | Some teamId \<Rightarrow>
                  if teamId = 0 then (configs, snd acc)
                  else (let teamConfigs = (case map_of (snd acc) teamId of
                                             None \<Rightarrow> []
                                           | Some cs \<Rightarrow> cs)
                        in (configs, AList.update teamId (teamConfigs @ [pluginConfig]) (snd acc)))))"

definition loadPluginsFromDB ::
  "PluginsServer \<Rightarrow> Plugin list \<Rightarrow> PluginAttachmentRow list \<Rightarrow> PluginConfigRow list
     \<Rightarrow> PluginsServer" where
  "loadPluginsFromDB server pluginRows pluginAttachmentRows pluginConfigRows =
     (let loadedPlugins = foldl (\<lambda>m row. AList.update (plugin_id row) row m) [] pluginRows;
          attachmentsPerConfig = foldl addAttachment [] pluginAttachmentRows;
          loaded = foldl (addConfigRow server attachmentsPerConfig) ([], []) pluginConfigRows
      in \<lparr>plugins = loadedPlugins, pluginConfigs = fst loaded,
          pluginConfigsPerTeam = snd loaded\<rparr>)"

text \<open>
  The body of the first loop of setupPlugins, as it leaves one config object: the VM of the
  previous load is kept when neither the config nor its plugin changed, and a config without
  a VM is handed to loadPlugin (not among the sources: a parameter that gives the handle it
  stores, if any). The config objects are shared between \<open>pluginConfigs\<close> and the team
  lists, so both see the VM; row ids are a key of the config table.
\<close>

definition resolveVm ::
  "PluginsServer \<Rightarrow> (PluginConfig \<Rightarrow> VMHandle option) \<Rightarrow> (int \<times> Plugin) list \<Rightarrow> PluginConfig
     \<Rightarrow> PluginConfig" where
  "resolveVm server loadPlugin loadedPlugins pluginConfig =
     (let plugin = map_of loadedPlugins (pc_plugin_id pluginConfig);
          prevConfig = map_of (pluginConfigs server) (pc_id pluginConfig);
          prevPlugin = (case prevConfig of
                          Some prev \<Rightarrow> map_of (plugins server) (pc_plugin_id pluginConfig)
                        | None \<Rightarrow> None);
          kept = (case prevConfig of
                    Some prev \<Rightarrow>
                      if pc_updated_at pluginConfig = pc_updated_at prev
                         \<and> map_option plugin_updated_at plugin = map_option plugin_updated_at prevPlugin
                      then pluginConfig\<lparr>pc_vm := pc_vm prev\<rparr>
                      else pluginConfig
                  | None \<Rightarrow> pluginConfig)
      in if pc_vm kept = None then kept\<lparr>pc_vm := loadPlugin kept\<rparr> else kept)"

text \<open>
  setupPlugins: load, resolve the VMs, replace the three maps, then sort every team's list
  with the comparator \<^verbatim>\<open>(a, b) => a.order - b.order\<close>. \<^verbatim>\<open>Array.prototype.sort\<close> is
  stable, which is what \<open>sort_key\<close> is.
\<close>

definition setupPlugins ::
  "(PluginConfig \<Rightarrow> VMHandle option) \<Rightarrow> Plugin list \<Rightarrow> PluginAttachmentRow list
     \<Rightarrow> PluginConfigRow list \<Rightarrow> PluginsServer \<Rightarrow> PluginsServer" where
  "setupPlugins loadPlugin pluginRows pluginAttachmentRows pluginConfigRows server =
     (let loaded = loadPluginsFromDB server pluginRows pluginAttachmentRows pluginConfigRows;
          withVm = resolveVm server loadPlugin (plugins loaded)
      in \<lparr>plugins = plugins loaded,
          pluginConfigs = map (\<lambda>entry. (fst entry, withVm (snd entry))) (pluginConfigs loaded),
          pluginConfigsPerTeam =
            map (\<lambda>entry. (fst entry, sort_key pc_order (map withVm (snd entry))))
              (pluginConfigsPerTeam loaded)\<rparr>)"

text \<open>
  Modelled from the spec: the pipeline runner (runPlugins, src/plugins/run.ts) is not among
  the sources. Specification, section 4.3: fetch the ordered config list of the event's
  team; for each config wait for the VM; if it exposes processEvent, invoke it with the
  event; a null result ends the pipeline and drops the event; if the plugin throws, the
  pipeline goes on with the unchanged event. The second component lists the ids of the
  configs visited, in the order of the visits.
\<close>

fun runPipeline :: "PluginConfig list \<Rightarrow> PluginEvent \<Rightarrow> PluginEvent option \<times> int list" where
  "runPipeline [] event = (Some event, [])"
| "runPipeline (pluginConfig # rest) event =
     (let outcome = (case pc_vm pluginConfig of
                       None \<Rightarrow> Returned event
                     | Some None \<Rightarrow> Returned event
                     | Some (Some vm) \<Rightarrow>
                         (case processEvent vm of
                            None \<Rightarrow> Returned event
                          | Some f \<Rightarrow> f event))
      in case outcome of
           ReturnedNull \<Rightarrow> (None, [pc_id pluginConfig])
         | Returned event' \<Rightarrow>
             (let r = runPipeline rest event' in (fst r, pc_id pluginConfig # snd r))
         | Threw message \<Rightarrow>
             (let r = runPipeline rest event in (fst r, pc_id pluginConfig # snd r)))"

definition runPlugins :: "PluginsServer \<Rightarrow> PluginEvent \<Rightarrow> PluginEvent option \<times> int list" where
  "runPlugins server event =
     (case map_of (pluginConfigsPerTeam server) (ev_team_id event) of
        None \<Rightarrow> (Some event, [])
      | Some teamConfigs \<Rightarrow> runPipeline teamConfigs event)"

text \<open>The configs that the rows put into a team's list, in row order.\<close>

definition teamRows :: "PluginsServer \<Rightarrow> int \<Rightarrow> PluginConfigRow list \<Rightarrow> PluginConfigRow list" where
  "teamRows server teamId rows =
     filter (\<lambda>row. map_of (plugins server) (pc_plugin_id row) \<noteq> None
                     \<and> pc_team_id row = Some teamId \<and> teamId \<noteq> 0) rows"

text \<open>The order the specification asks for: ascending by \<open>(order, id)\<close>, strictly.\<close>

definition orderIdBefore :: "PluginConfig \<Rightarrow> PluginConfig \<Rightarrow> bool" where
  "orderIdBefore a b = (pc_order a < pc_order b \<or> (pc_order a = pc_order b \<and> pc_id a < pc_id b))"

text \<open>
  A server that has loaded plugin 60 before, and three config rows of team 2 for it: ids
  41 and 40 share order 1 and arrive in this order, id 39 has order 0.
\<close>

definition plugin60 :: Plugin where
  "plugin60 = \<lparr>plugin_id = 60, plugin_name = ''test-maxmind-plugin'', plugin_updated_at = ''2020-12-01''\<rparr>"

definition serverWithPlugin60 :: PluginsServer where
  "serverWithPlugin60 = \<lparr>plugins = [(60, plugin60)], pluginConfigs = [], pluginConfigsPerTeam = []\<rparr>"

definition sampleConfigRows :: "PluginConfigRow list" where
  "sampleConfigRows =
     [\<lparr>pc_id = 41, pc_team_id = Some 2, pc_plugin_id = 60, pc_order = 1, pc_updated_at = ''t''\<rparr>,
      \<lparr>pc_id = 40, pc_team_id = Some 2, pc_plugin_id = 60, pc_order = 1, pc_updated_at = ''t''\<rparr>,
      \<lparr>pc_id = 39, pc_team_id = Some 2, pc_plugin_id = 60, pc_order = 0, pc_updated_at = ''t''\<rparr>]"

definition sampleEvent :: PluginEvent where
  "sampleEvent =
     \<lparr>ev_event = ''$pageview'', ev_team_id = 2, ev_properties = None,
      ev_timestamp = None, ev_offset = None\<rparr>"

section \<open>Lazy plugin VMs (src/worker/vm/lazy.ts)\<close>

definition MAX_SETUP_RETRIES :: nat where
  "MAX_SETUP_RETRIES = 10"

definition INITIALIZATION_RETRY_MULTIPLIER :: nat where
  "INITIALIZATION_RETRY_MULTIPLIER = 2"

definition INITIALIZATION_RETRY_BASE_MS :: nat where
  "INITIALIZATION_RETRY_BASE_MS = 3000"

text \<open>
  What the \<^verbatim>\<open>try\<close> block of \<^verbatim>\<open>initialize\<close> does in one attempt: the VM is created and
  its capabilities are recorded, or a RetryError is thrown, or some other error.
\<close>

datatype init_outcome = VmCreated | ThrewRetryError | ThrewOtherError

datatype resolution = Pending | ResolvedVm | ResolvedNull

datatype vm_effect =
    LogPluginLoaded
  | ClearError
  | LogRetrying nat
  | SetTimeout nat
  | LogDisabled bool
  | DisablePlugin
  | ProcessError

record LazyPluginVM =
  totalInitAttemptsCounter :: nat
  initRetryTimeout :: "nat option"
  resolveInternalVm :: resolution

definition initVm :: "LazyPluginVM \<Rightarrow> LazyPluginVM" where
  "initVm vm = vm\<lparr>totalInitAttemptsCounter := totalInitAttemptsCounter vm + 1,
                  resolveInternalVm := Pending\<rparr>"

text \<open>The constructor.\<close>

definition newLazyPluginVM :: LazyPluginVM where
  "newLazyPluginVM =
     initVm \<lparr>totalInitAttemptsCounter = 0, initRetryTimeout = None, resolveInternalVm = Pending\<rparr>"

text \<open>
  One call of \<^verbatim>\<open>initialize\<close>: the effects in the order they are issued, the object
  afterwards, and the delay in milliseconds of the retry timer when one was set. The
  counter is at least 1 whenever \<^verbatim>\<open>initialize\<close> exists, since initVm, which creates it,
  increments first.
\<close>

definition initialize :: "init_outcome \<Rightarrow> LazyPluginVM \<Rightarrow> vm_effect list \<times> LazyPluginVM \<times> nat option" where
  "initialize outcome vm =
     (case outcome of
        VmCreated \<Rightarrow> ([LogPluginLoaded, ClearError], vm\<lparr>resolveInternalVm := ResolvedVm\<rparr>, None)
      | error \<Rightarrow>
          (let isRetryError = (error = ThrewRetryError)
           in if isRetryError \<and> totalInitAttemptsCounter vm < MAX_SETUP_RETRIES
              then (let nextRetryMs =
                          INITIALIZATION_RETRY_MULTIPLIER ^ (totalInitAttemptsCounter vm - 1)
                            * INITIALIZATION_RETRY_BASE_MS
                    in ([LogRetrying (nextRetryMs div 1000), SetTimeout nextRetryMs],
                        vm\<lparr>initRetryTimeout := Some nextRetryMs, resolveInternalVm := ResolvedNull\<rparr>,
                        Some nextRetryMs))
              else ([LogDisabled isRetryError, DisablePlugin, ProcessError],
                    vm\<lparr>resolveInternalVm := ResolvedNull\<rparr>, None)))"

text \<open>
  The whole life of a handle: \<^verbatim>\<open>initialize\<close>, and when the retry timer fires, initVm and
  \<^verbatim>\<open>initialize\<close> again. \<open>outcomeOf n\<close> is what the \<open>n\<close>-th attempt runs into.
\<close>

function initializeWithRetries ::
  "(nat \<Rightarrow> init_outcome) \<Rightarrow> LazyPluginVM \<Rightarrow> vm_effect list \<times> LazyPluginVM" where
  "initializeWithRetries outcomeOf vm =
     (let r = initialize (outcomeOf (totalInitAttemptsCounter vm)) vm
      in case snd (snd r) of
           None \<Rightarrow> (fst r, fst (snd r))
         | Some ms \<Rightarrow>
             (let later = initializeWithRetries outcomeOf (initVm (fst (snd r)))
              in (fst r @ fst later, snd later)))"
  by pat_completeness auto
termination
  by (relation "measure (\<lambda>(outcomeOf, vm). MAX_SETUP_RETRIES - totalInitAttemptsCounter vm)")
     (auto simp: initialize_def initVm_def Let_def split: init_outcome.splits if_splits)

text \<open>The delays of the retry timers set, in order.\<close>

fun retryDelays :: "vm_effect list \<Rightarrow> nat list" where
  "retryDelays [] = []"
| "retryDelays (SetTimeout ms # es) = ms # retryDelays es"
| "retryDelays (e # es) = retryDelays es"

text \<open>
  The retry policy, for a run that starts with the counter at \<open>c\<close> and ends with it at
  \<open>n\<close>: the attempts \<open>c\<close> to \<open>n - 1\<close> threw a RetryError and set the timers of delays
  3000 * 2 ^ (k - 1) ms; attempt \<open>n\<close> either created the VM, or threw and disabled the plugin.
\<close>

definition retryPolicyHolds :: "(nat \<Rightarrow> init_outcome) \<Rightarrow> nat \<Rightarrow> vm_effect list \<times> LazyPluginVM \<Rightarrow> bool" where
  "retryPolicyHolds outcomeOf c run =
     (let n = totalInitAttemptsCounter (snd run)
      in c \<le> n \<and> (c \<le> 10 \<longrightarrow> n \<le> 10)
         \<and> retryDelays (fst run) = map (\<lambda>k. 3000 * 2 ^ (k - 1)) [c..<n]
         \<and> (\<forall>k. c \<le> k \<and> k < n \<longrightarrow> outcomeOf k = ThrewRetryError)
         \<and> (if outcomeOf n = VmCreated then resolveInternalVm (snd run) = ResolvedVm
             else (outcomeOf n = ThrewOtherError \<or> 10 \<le> n)
                  \<and> resolveInternalVm (snd run) = ResolvedNull
                  \<and> (\<exists>earlier. fst run = earlier @ [LogDisabled (outcomeOf n = ThrewRetryError),
                                                      DisablePlugin, ProcessError])))"

section \<open>Distributed lock (src/main/services/redlock.ts)\<close>

datatype callback = TryToGetTheLock | ExtendLock

datatype thrown = LockError | OtherError

text \<open>
  What happens inside the \<^verbatim>\<open>try\<close> of tryToGetTheLock: the lock is refused with an
  error, or granted, after which \<^verbatim>\<open>onLock\<close> returns or throws.
\<close>

datatype lock_attempt = LockRefused thrown | LockGranted "thrown option"

record Redlock =
  stopped :: bool
  weHaveTheLock :: bool
  lockHeld :: bool
  lockTimeout :: "(callback \<times> int) option"
  timers :: "(callback \<times> int) list"
  captured :: "thrown list"

definition lockTTL :: "int \<Rightarrow> int" where
  "lockTTL ttl = ttl * 1000"

definition retryDelay :: "int \<Rightarrow> int" where
  "retryDelay ttl = lockTTL ttl div 10"

definition extendDelay :: "int \<Rightarrow> int" where
  "extendDelay ttl = lockTTL ttl div 2"

definition defaultTtl :: int where
  "defaultTtl = 60"

text \<open>\<^verbatim>\<open>lockTimeout = setTimeout(cb, delay)\<close>.\<close>

definition setLockTimeout :: "callback \<Rightarrow> int \<Rightarrow> Redlock \<Rightarrow> Redlock" where
  "setLockTimeout cb delay st = st\<lparr>lockTimeout := Some (cb, delay), timers := timers st @ [(cb, delay)]\<rparr>"

definition extendLock :: "int \<Rightarrow> thrown option \<Rightarrow> Redlock \<Rightarrow> Redlock" where
  "extendLock ttl extendThrows st =
     (if stopped st then st
      else (case extendThrows of
              None \<Rightarrow> setLockTimeout ExtendLock (extendDelay ttl) st
            | Some error \<Rightarrow>
                setLockTimeout TryToGetTheLock 0
                  (st\<lparr>weHaveTheLock := False, captured := captured st @ [error]\<rparr>)))"

text \<open>The \<^verbatim>\<open>catch\<close> block of tryToGetTheLock.\<close>

definition lockFailed :: "int \<Rightarrow> thrown \<Rightarrow> Redlock \<Rightarrow> Redlock" where
  "lockFailed ttl error st =
     (if stopped st then st
      else (case error of
              LockError \<Rightarrow> setLockTimeout TryToGetTheLock (retryDelay ttl) (st\<lparr>weHaveTheLock := False\<rparr>)
            | OtherError \<Rightarrow> st\<lparr>weHaveTheLock := False, captured := captured st @ [OtherError]\<rparr>))"

definition tryToGetTheLock :: "int \<Rightarrow> lock_attempt \<Rightarrow> Redlock \<Rightarrow> Redlock" where
  "tryToGetTheLock ttl attempt st =
     (case attempt of
        LockRefused error \<Rightarrow> lockFailed ttl error st
      | LockGranted onLock \<Rightarrow>
          (let locked = setLockTimeout ExtendLock (extendDelay ttl)
                          (st\<lparr>lockHeld := True, weHaveTheLock := True\<rparr>)
           in case onLock of
                None \<Rightarrow> locked
              | Some error \<Rightarrow> lockFailed ttl error locked))"

text \<open>startRedlock, up to its first timer.\<close>

definition startRedlock :: Redlock where
  "startRedlock =
     setLockTimeout TryToGetTheLock 0
       \<lparr>stopped = False, weHaveTheLock = False, lockHeld = False, lockTimeout = None,
        timers = [], captured = []\<rparr>"

section \<open>Properties of the action matcher\<close>

text \<open>
  C10. For every property filter and every operator (also \<open>is_not_set\<close>, and an operator the
  switch does not know), checkPropertiesAgainstFilter returns false, without throwing, when
  the properties object is null or undefined. Hence an event without a properties object
  fails every property filter of whatever type, and so every action step that has at least
  one filter, on the elements that match computes for it.
\<close>

theorem checkPropertiesAgainstFilter_no_properties:
  "checkPropertiesAgainstFilter rt None flt = Inr False
   \<and> (ev_properties event = None \<longrightarrow>
        checkEventAgainstFilter rt event (matchElements ex event) flt = Inr False
        \<and> (\<forall>fs. step_properties step = Some (flt # fs) \<longrightarrow>
              checkStepFilters rt event (matchElements ex event) step = Inr False))"
  by (cases "f_type flt")
     (simp_all add: checkPropertiesAgainstFilter_def checkEventAgainstFilter_def
        checkEventAgainstEventFilter_def checkEventAgainstPersonFilter_def
        checkEventAgainstElementFilter_def checkEventAgainstCohortFilter_def
        checkStepFilters_def matchElements_def)

text \<open>C10 for an \<open>is_not_set\<close> filter and an event without properties.\<close>

theorem checkPropertiesAgainstFilter_no_properties_witness:
  "checkPropertiesAgainstFilter sampleRuntime None isNotSetFilter = Inr False
   \<and> ev_properties sampleEvent = None
   \<and> checkEventAgainstFilter sampleRuntime sampleEvent (matchElements (\<lambda>v. []) sampleEvent) isNotSetFilter = Inr False
   \<and> checkStepFilters sampleRuntime sampleEvent (matchElements (\<lambda>v. []) sampleEvent)
        \<lparr>step_event = None, step_properties = Some [isNotSetFilter]\<rparr> = Inr False"
  using checkPropertiesAgainstFilter_no_properties
    [of sampleRuntime isNotSetFilter sampleEvent "\<lambda>v. []"
        "\<lparr>step_event = None, step_properties = Some [isNotSetFilter]\<rparr>"]
  by (simp add: sampleEvent_def)

section \<open>Properties of timestamp resolution\<close>

text \<open>
  C2, as the code has it. The empty string is not a date. Whenever the event's timestamp
  is absent, empty or parses, handleTimestamp returns what the precedence of the
  specification gives: now + (timestamp - sent_at) when both are present, else the timestamp,
  else now - offset, else now. When a non-empty timestamp does not parse, the failure of the
  first rule is caught and the second rule parses the same string again: the result is that
  failure, and neither the offset rule nor now is reached.
\<close>

theorem handleTimestamp_precedence:
  assumes "fromISO [] = Inl e0"
  shows "case ev_timestamp data of
           None \<Rightarrow> handleTimestamp fromISO data now sentAt = Inr (specTimestamp fromISO data now sentAt)
         | Some ts \<Rightarrow>
             (case fromISO ts of
                Inr t \<Rightarrow> handleTimestamp fromISO data now sentAt = Inr (specTimestamp fromISO data now sentAt)
              | Inl e \<Rightarrow>
                  if ts = []
                  then handleTimestamp fromISO data now sentAt = Inr (specTimestamp fromISO data now sentAt)
                  else handleTimestamp fromISO data now sentAt = Inl e)"
  using assms
  by (auto simp: handleTimestamp_def specTimestamp_def Let_def split: option.splits sum.splits)

text \<open>
  C2 as stated fails: with no sent_at, a timestamp that is not a date and an offset of 5 ms,
  the stated precedence gives now - 5, and handleTimestamp gives the parse failure.
\<close>

theorem handleTimestamp_unparsable_cex:
  "specTimestamp sampleFromISO
     \<lparr>ev_event = ''$pageview'', ev_team_id = 2, ev_properties = None,
      ev_timestamp = Some ''not a date'', ev_offset = Some 5\<rparr> 100 None = 95
   \<and> handleTimestamp sampleFromISO
     \<lparr>ev_event = ''$pageview'', ev_team_id = 2, ev_properties = None,
      ev_timestamp = Some ''not a date'', ev_offset = Some 5\<rparr> 100 None
       = Inl (InvalidDateTime ''not a date'')"
  by (simp add: handleTimestamp_def specTimestamp_def sampleFromISO_def)

text \<open>
  C2 with a parser that knows one date: a timestamp of 5000 ms sent at 4000 ms and received
  at 100 ms resolves to 1100 ms; a timestamp that is not a date resolves to the parse
  failure although an offset is present.
\<close>

theorem handleTimestamp_precedence_witness:
  "sampleFromISO [] = Inl (InvalidDateTime [])
   \<and> handleTimestamp sampleFromISO
        \<lparr>ev_event = ''$pageview'', ev_team_id = 2, ev_properties = None,
         ev_timestamp = Some ''1970-01-01T00:00:05.000Z'', ev_offset = Some 7\<rparr> 100 (Some 4000) = Inr 1100
   \<and> handleTimestamp sampleFromISO
        \<lparr>ev_event = ''$pageview'', ev_team_id = 2, ev_properties = None,
         ev_timestamp = Some ''yesterday'', ev_offset = Some 7\<rparr> 100 (Some 4000)
       = Inl (InvalidDateTime ''yesterday'')"
proof -
  have h: "sampleFromISO [] = Inl (InvalidDateTime [])"
    by (simp add: sampleFromISO_def)
  have a: "handleTimestamp sampleFromISO
        \<lparr>ev_event = ''$pageview'', ev_team_id = 2, ev_properties = None,
         ev_timestamp = Some ''1970-01-01T00:00:05.000Z'', ev_offset = Some 7\<rparr> 100 (Some 4000) = Inr 1100"
    using handleTimestamp_precedence [where fromISO = sampleFromISO and now = 100 and sentAt = "Some 4000"
        and data = "\<lparr>ev_event = ''$pageview'', ev_team_id = 2, ev_properties = None,
         ev_timestamp = Some ''1970-01-01T00:00:05.000Z'', ev_offset = Some 7\<rparr>", OF h]
    by (simp add: sampleFromISO_def specTimestamp_def)
  have b: "handleTimestamp sampleFromISO
        \<lparr>ev_event = ''$pageview'', ev_team_id = 2, ev_properties = None,
         ev_timestamp = Some ''yesterday'', ev_offset = Some 7\<rparr> 100 (Some 4000)
       = Inl (InvalidDateTime ''yesterday'')"
    using handleTimestamp_precedence [where fromISO = sampleFromISO and now = 100 and sentAt = "Some 4000"
        and data = "\<lparr>ev_event = ''$pageview'', ev_team_id = 2, ev_properties = None,
         ev_timestamp = Some ''yesterday'', ev_offset = Some 7\<rparr>", OF h]
    by (simp add: sampleFromISO_def)
  from h a b show ?thesis by simp
qed

section \<open>Properties of the team caches\<close>

text \<open>
  C7, at a failing input. The team already lists the event name \<open>$pageview\<close>, the
  property keys \<open>$browser\<close> and \<open>price\<close> and the numerical key \<open>price\<close>. Storing the
  same event again appends all of them a second time and writes the team row, because
  \<^verbatim>\<open>name in array\<close> tests indices, not elements.
\<close>

theorem storeNamesAndProperties_appends_again:
  "storeNamesAndProperties sampleTeam ''$pageview''
       [(''$browser'', JStr ''Chrome''), (''price'', JNum 3)]
     = (sampleTeam
          \<lparr>event_names := Some [''$pageview'', ''$pageview''],
           event_names_with_usage := [EventUsage ''$pageview'', EventUsage ''$pageview''],
           event_properties := Some [''$browser'', ''price'', ''$browser'', ''price''],
           event_properties_with_usage :=
             [PropertyUsage ''$browser'', PropertyUsage ''price'',
              PropertyUsage ''$browser'', PropertyUsage ''price''],
           event_properties_numerical := Some [''price'', ''price'']\<rparr>,
        Some (sampleTeam
          \<lparr>event_names := Some [''$pageview'', ''$pageview''],
           event_names_with_usage := [EventUsage ''$pageview'', EventUsage ''$pageview''],
           event_properties := Some [''$browser'', ''price'', ''$browser'', ''price''],
           event_properties_with_usage := [EventUsage ''$pageview'', EventUsage ''$pageview''],
           event_properties_numerical := Some [''price'', ''price'']\<rparr>))"
  by (simp add: storeNamesAndProperties_def storeProperty_def sampleTeam_def inArray_def
        canonicalIndex_def isDigit_def arrayPrototypeKeys_def Let_def)

lemma keepsEntries_refl [simp]: "keepsEntries xs xs"
  by (simp add: keepsEntries_def split: option.splits)

lemma keepsEntries_snoc [simp]: "keepsEntries (Some xs) (Some (xs @ ys))"
  by (simp add: keepsEntries_def)

lemma keepsEntries_trans: "keepsEntries a b \<Longrightarrow> keepsEntries b c \<Longrightarrow> keepsEntries a c"
proof (cases a)
  case None
  assume "keepsEntries a b" "keepsEntries b c"
  with None show ?thesis by (simp add: keepsEntries_def)
next
  case (Some xs)
  assume ab: "keepsEntries a b" and bc: "keepsEntries b c"
  from ab Some obtain ys where b: "b = Some ys" and xy: "take (length xs) ys = xs"
    by (auto simp: keepsEntries_def split: option.splits)
  from bc b obtain zs where c: "c = Some zs" and yz: "take (length ys) zs = ys"
    by (auto simp: keepsEntries_def split: option.splits)
  from xy have "length xs \<le> length ys"
    by (metis length_take min.cobounded1)
  then have "take (length xs) zs = take (length xs) (take (length ys) zs)"
    by (simp add: min_def)
  with xy yz have "take (length xs) zs = xs" by simp
  with Some c show ?thesis by (simp add: keepsEntries_def)
qed

lemma storeProperty_keeps:
  "keepsEntries (event_names (fst st)) (event_names (fst (storeProperty st kv)))
   \<and> keepsEntries (event_properties (fst st)) (event_properties (fst (storeProperty st kv)))
   \<and> keepsEntries (event_properties_numerical (fst st))
        (event_properties_numerical (fst (storeProperty st kv)))"
  by (simp add: storeProperty_def Let_def split: option.splits)

lemma foldl_storeProperty_keeps:
  "keepsEntries (event_names (fst st)) (event_names (fst (foldl storeProperty st properties)))
   \<and> keepsEntries (event_properties (fst st))
        (event_properties (fst (foldl storeProperty st properties)))
   \<and> keepsEntries (event_properties_numerical (fst st))
        (event_properties_numerical (fst (foldl storeProperty st properties)))"
proof (induction properties arbitrary: st)
  case Nil
  then show ?case by simp
next
  case (Cons kv properties)
  from storeProperty_keeps [of st kv] Cons.IH [of "storeProperty st kv"]
  show ?case by (auto intro: keepsEntries_trans)
qed

text \<open>
  Nothing is removed: each of the three lists of the team, when present, is an initial
  segment of what the call leaves.
\<close>

lemma storeNamesAndProperties_keeps:
  "keepsEntries (event_names team) (event_names (fst (storeNamesAndProperties team event properties)))
   \<and> keepsEntries (event_properties team)
        (event_properties (fst (storeNamesAndProperties team event properties)))
   \<and> keepsEntries (event_properties_numerical team)
        (event_properties_numerical (fst (storeNamesAndProperties team event properties)))"
proof -
  let ?st0 = "if \<not> ingested_event team then (team\<lparr>ingested_event := True\<rparr>, True) else (team, False)"
  let ?st1 = "case event_names (fst ?st0) of
                Some names \<Rightarrow>
                  if \<not> inArray event names
                  then ((fst ?st0)\<lparr>event_names := Some (names @ [event]),
                                   event_names_with_usage :=
                                     event_names_with_usage (fst ?st0) @ [EventUsage event]\<rparr>, True)
                  else ?st0
              | None \<Rightarrow> ?st0"
  have first: "keepsEntries (event_names team) (event_names (fst ?st1))
     \<and> keepsEntries (event_properties team) (event_properties (fst ?st1))
     \<and> keepsEntries (event_properties_numerical team) (event_properties_numerical (fst ?st1))"
    by (simp split: option.splits)
  have res: "fst (storeNamesAndProperties team event properties) = fst (foldl storeProperty ?st1 properties)"
    by (simp add: storeNamesAndProperties_def Let_def)
  from first foldl_storeProperty_keeps [of ?st1 properties] show ?thesis
    unfolding res by (blast intro: keepsEntries_trans)
qed

text \<open>
  A name the team already lists is appended again, and the row written, unless the name
  happens to be an index of the list, \<open>length\<close> or an inherited member.
\<close>

lemma storeNamesAndProperties_known_name:
  assumes "event_names team = Some names" and "event \<in> set names" and "\<not> inArray event names"
  shows "event_names (fst (storeNamesAndProperties team event [])) = Some (names @ [event])
       \<and> snd (storeNamesAndProperties team event []) \<noteq> None"
  using assms by (simp add: storeNamesAndProperties_def Let_def)

section \<open>Properties of identity resolution\<close>

declare alias_fn.simps [simp del]

lemma find_the_only_one:
  assumes "a \<in> set xs" and "P a" and "\<And>x. x \<in> set xs \<Longrightarrow> P x \<Longrightarrow> x = a"
  shows "List.find P xs = Some a"
  using assms
proof (induction xs)
  case Nil
  then show ?case by simp
next
  case (Cons y ys)
  show ?case
  proof (cases "P y")
    case True
    with Cons.prems(3) [of y] have "y = a" by simp
    with True show ?thesis by simp
  next
    case False
    with Cons.prems(1,2) have "a \<in> set ys" by auto
    moreover have "\<And>x. x \<in> set ys \<Longrightarrow> P x \<Longrightarrow> x = a"
      using Cons.prems(3) by simp
    ultimately have "List.find P ys = Some a"
      using Cons.IH Cons.prems(2) by blast
    with False show ?thesis by simp
  qed
qed

lemma find_snoc_not: "\<not> P y \<Longrightarrow> List.find P (xs @ [y]) = List.find P xs"
  by (induction xs) simp_all

lemma hasDistinctId_snoc:
  "hasDistinctId (rows @ [r]) t d pid =
     (hasDistinctId rows t d pid \<or> (pdi_person_id r = pid \<and> pdi_team_id r = t \<and> pdi_distinct_id r = d))"
  by (auto simp: hasDistinctId_def list_ex_iff)

lemma findPerson_Some:
  "findPerson db t d = Some a \<Longrightarrow>
     a \<in> set (persons db) \<and> p_team_id a = t \<and> hasDistinctId (distinctIds db) t d (p_id a)"
  by (auto simp: findPerson_def find_Some_iff)

lemma findPerson_None:
  "findPerson db t d = None \<Longrightarrow> p \<in> set (persons db) \<Longrightarrow> p_team_id p = t \<Longrightarrow>
     \<not> hasDistinctId (distinctIds db) t d (p_id p)"
  by (auto simp: findPerson_def find_None_iff)

lemma nobody_found_no_row:
  assumes wf: "wellFormed db" and none: "findPerson db t d = None"
  shows "\<not> list_ex (\<lambda>r. pdi_team_id r = t \<and> pdi_distinct_id r = d) (distinctIds db)"
proof
  assume "list_ex (\<lambda>r. pdi_team_id r = t \<and> pdi_distinct_id r = d) (distinctIds db)"
  then obtain r where r: "r \<in> set (distinctIds db)" "pdi_team_id r = t" "pdi_distinct_id r = d"
    by (auto simp: list_ex_iff)
  with wf obtain p where p: "p \<in> set (persons db)" "p_id p = pdi_person_id r" "p_team_id p = t"
    by (auto simp: wellFormed_def list_all_iff list_ex_iff)
  from r p have "hasDistinctId (distinctIds db) t d (p_id p)"
    by (auto simp: hasDistinctId_def list_ex_iff)
  with findPerson_None [OF none p(1) p(3)] show False by simp
qed

lemma postgresQuery_tables [simp]:
  "persons (postgresQuery st db) = persons db"
  "distinctIds (postgresQuery st db) = distinctIds db"
  "cohortPeople (postgresQuery st db) = cohortPeople db"
  "nextPersonId (postgresQuery st db) = nextPersonId db"
  "nextDistinctIdId (postgresQuery st db) = nextDistinctIdId db"
  "insertPersonError (postgresQuery st db) = insertPersonError db"
  "kafkaProducer (postgresQuery st db) = kafkaProducer db"
  by (simp_all add: postgresQuery_def)

lemma findPerson_postgresQuery [simp]: "findPerson (postgresQuery st db) t d = findPerson db t d"
  by (simp add: findPerson_def)

lemma wellFormed_postgresQuery [simp]: "wellFormed (postgresQuery st db) = wellFormed db"
  by (simp add: wellFormed_def)

text \<open>Attaching a distinct id that nobody holds to a person of the store.\<close>

lemma attach_free_id:
  assumes wf: "wellFormed db"
    and a: "a \<in> set (persons db)" "p_team_id a = t"
    and free: "findPerson db t d = None"
  shows "persons (detach (addDistinctId a d db)) = persons db
       \<and> findPerson (detach (addDistinctId a d db)) t d = Some a
       \<and> (\<forall>d'. d' \<noteq> d \<longrightarrow> findPerson (detach (addDistinctId a d db)) t d' = findPerson db t d')
       \<and> wellFormed (detach (addDistinctId a d db))"
proof -
  let ?row = "\<lparr>pdi_id = nextDistinctIdId db, pdi_person_id = p_id a, pdi_distinct_id = d, pdi_team_id = t\<rparr>"
  let ?db' = "detach (addDistinctId a d db)"
  have norow: "\<not> list_ex (\<lambda>r. pdi_team_id r = t \<and> pdi_distinct_id r = d) (distinctIds db)"
    by (rule nobody_found_no_row [OF wf free])
  have P: "persons ?db' = persons db"
    using norow a(2)
    by (simp add: addDistinctId_def detach_def sendIfProducer_def Let_def)
  have D: "distinctIds ?db' = distinctIds db @ [?row]"
    using norow a(2)
    by (simp add: addDistinctId_def detach_def sendIfProducer_def Let_def)
  have N: "nextPersonId ?db' = nextPersonId db"
    using norow a(2)
    by (simp add: addDistinctId_def detach_def sendIfProducer_def Let_def)
  have ids: "distinct (map p_id (persons db))"
    using wf by (simp add: wellFormed_def)
  have "List.find (\<lambda>p. p_team_id p = t \<and> hasDistinctId (distinctIds db @ [?row]) t d (p_id p)) (persons db) = Some a"
  proof (rule find_the_only_one [OF a(1)])
    show "p_team_id a = t \<and> hasDistinctId (distinctIds db @ [?row]) t d (p_id a)"
      using a(2) by (simp add: hasDistinctId_snoc)
  next
    fix x assume x: "x \<in> set (persons db)"
      and px: "p_team_id x = t \<and> hasDistinctId (distinctIds db @ [?row]) t d (p_id x)"
    from px have tx: "p_team_id x = t" by simp
    from px have "hasDistinctId (distinctIds db) t d (p_id x) \<or> p_id x = p_id a"
      by (auto simp: hasDistinctId_snoc)
    with findPerson_None [OF free x tx] have "p_id x = p_id a" by blast
    with ids x a(1) show "x = a" by (meson distinct_map inj_onD)
  qed
  then have F: "findPerson ?db' t d = Some a"
    by (simp add: findPerson_def P D)
  have O: "\<forall>d'. d' \<noteq> d \<longrightarrow> findPerson ?db' t d' = findPerson db t d'"
    by (simp add: findPerson_def P D hasDistinctId_snoc)
  have W: "wellFormed ?db'"
    using wf a by (auto simp: wellFormed_def P D N list_all_iff list_ex_iff)
  from P F O W show ?thesis by blast
qed

text \<open>An insertion that the unique constraint rejects changes no table.\<close>

lemma attach_taken_id:
  assumes "list_ex (\<lambda>r. pdi_team_id r = p_team_id a \<and> pdi_distinct_id r = d) (distinctIds db)"
  shows "persons (detach (addDistinctId a d db)) = persons db
       \<and> distinctIds (detach (addDistinctId a d db)) = distinctIds db"
  using assms by (simp add: addDistinctId_def detach_def Let_def)

text \<open>A person just created holds no distinct id yet.\<close>

lemma createPerson_fresh:
  fixes now :: int and props :: Properties and t :: int and ident :: bool and uuid :: string and db :: DB
  assumes wf: "wellFormed db" and ok: "insertPersonError db = None"
  defines "p \<equiv> \<lparr>p_id = nextPersonId db, p_team_id = t, p_created_at = now,
                   p_properties = props, p_is_identified = ident, p_uuid = uuid\<rparr>"
  shows "fst (createPerson now props t ident uuid db) = Inr p
       \<and> persons (snd (createPerson now props t ident uuid db)) = persons db @ [p]
       \<and> wellFormed (snd (createPerson now props t ident uuid db))
       \<and> (\<forall>t' d. findPerson (snd (createPerson now props t ident uuid db)) t' d = findPerson db t' d)"
proof -
  let ?db' = "snd (createPerson now props t ident uuid db)"
  have R: "fst (createPerson now props t ident uuid db) = Inr p"
    using ok by (simp add: createPerson_def p_def Let_def)
  have P: "persons ?db' = persons db @ [p]"
    using ok by (simp add: createPerson_def p_def Let_def sendIfProducer_def)
  have D: "distinctIds ?db' = distinctIds db"
    using ok by (simp add: createPerson_def p_def Let_def sendIfProducer_def)
  have N: "nextPersonId ?db' = nextPersonId db + 1"
    using ok by (simp add: createPerson_def p_def Let_def sendIfProducer_def)
  have below: "\<And>q. q \<in> set (persons db) \<Longrightarrow> p_id q < nextPersonId db"
    using wf by (simp add: wellFormed_def list_all_iff)
  have refs: "\<And>r. r \<in> set (distinctIds db) \<Longrightarrow> \<exists>q\<in>set (persons db). p_id q = pdi_person_id r \<and> p_team_id q = pdi_team_id r"
    using wf by (simp add: wellFormed_def list_all_iff list_ex_iff)
  have pid: "p_id p = nextPersonId db" by (simp add: p_def)
  have notin: "nextPersonId db \<notin> p_id ` set (persons db)"
  proof
    assume "nextPersonId db \<in> p_id ` set (persons db)"
    then obtain q where "q \<in> set (persons db)" "p_id q = nextPersonId db" by auto
    with below [of q] show False by simp
  qed
  have W1: "distinct (map p_id (persons db @ [p]))"
    using wf notin by (simp add: wellFormed_def pid)
  have W2: "list_all (\<lambda>q. p_id q < nextPersonId db + 1) (persons db @ [p])"
    using below by (auto simp: list_all_iff pid intro: less_imp_le)
  have W3: "list_all (\<lambda>r. list_ex (\<lambda>q. p_id q = pdi_person_id r \<and> p_team_id q = pdi_team_id r)
              (persons db @ [p])) (distinctIds db)"
    using refs by (auto simp: list_all_iff list_ex_iff)
  have W: "wellFormed ?db'"
    unfolding wellFormed_def P D N using W1 W2 W3 by simp
  have norows: "\<And>t' d. \<not> hasDistinctId (distinctIds db) t' d (p_id p)"
  proof
    fix t' d assume "hasDistinctId (distinctIds db) t' d (p_id p)"
    then obtain r where "r \<in> set (distinctIds db)" "pdi_person_id r = p_id p"
      by (auto simp: hasDistinctId_def list_ex_iff)
    with refs obtain q where "q \<in> set (persons db)" "p_id q = p_id p" by metis
    with below pid show False by force
  qed
  have F: "\<forall>t' d. findPerson ?db' t' d = findPerson db t' d"
    using norows by (simp add: findPerson_def P D find_snoc_not)
  from R P W F show ?thesis by blast
qed

lemma findPerson_fields:
  "persons db' = persons db \<Longrightarrow> distinctIds db' = distinctIds db \<Longrightarrow> findPerson db' t d = findPerson db t d"
  by (simp add: findPerson_def)

lemma alias_fn_unfold:
  "alias_fn now uuid previousDistinctId distinctId teamId retryIfFailed db =
     (let db2 = postgresQuery (SelectPerson teamId distinctId)
                  (postgresQuery (SelectPerson teamId previousDistinctId) db)
      in case (findPerson db teamId previousDistinctId, findPerson db teamId distinctId) of
           (Some oldPerson, None) \<Rightarrow> detach (addDistinctId oldPerson distinctId db2)
         | (None, Some newPerson) \<Rightarrow> detach (addDistinctId newPerson previousDistinctId db2)
         | (None, None) \<Rightarrow>
             (let created = createPerson now [] teamId False uuid db2
              in case fst created of
                   Inr personCreated \<Rightarrow>
                     detach (addDistinctId personCreated previousDistinctId
                       (detach (addDistinctId personCreated distinctId (snd created))))
                 | Inl caught \<Rightarrow>
                     if retryIfFailed
                     then alias_fn now uuid previousDistinctId distinctId teamId False (snd created)
                     else snd created)
         | (Some oldPerson, Some newPerson) \<Rightarrow>
             if p_id oldPerson \<noteq> p_id newPerson
             then detach (mergePeople newPerson [oldPerson] db2)
             else db2)"
  by (subst alias_fn.simps) (simp add: fetchPerson_def Let_def split: option.splits sum.splits)

lemma alias_attaches_current:
  assumes wf: "wellFormed db"
    and old: "findPerson db teamId previousDistinctId = Some a"
    and new: "findPerson db teamId distinctId = None"
  shows "persons (alias_fn now uuid previousDistinctId distinctId teamId retry db) = persons db
       \<and> findPerson (alias_fn now uuid previousDistinctId distinctId teamId retry db) teamId distinctId = Some a
       \<and> findPerson (alias_fn now uuid previousDistinctId distinctId teamId retry db) teamId previousDistinctId = Some a"
proof -
  let ?db2 = "postgresQuery (SelectPerson teamId distinctId)
                (postgresQuery (SelectPerson teamId previousDistinctId) db)"
  have eq: "alias_fn now uuid previousDistinctId distinctId teamId retry db
              = detach (addDistinctId a distinctId ?db2)"
    by (subst alias_fn_unfold) (simp add: old new Let_def)
  from old new have ne: "previousDistinctId \<noteq> distinctId" by auto
  from findPerson_Some [OF old] have a: "a \<in> set (persons ?db2)" "p_team_id a = teamId" by simp_all
  have wf2: "wellFormed ?db2" using wf by simp
  have free: "findPerson ?db2 teamId distinctId = None" using new by simp
  from attach_free_id [OF wf2 a free] ne old show ?thesis
    unfolding eq by simp
qed

lemma alias_attaches_previous:
  assumes wf: "wellFormed db"
    and old: "findPerson db teamId previousDistinctId = None"
    and new: "findPerson db teamId distinctId = Some b"
  shows "persons (alias_fn now uuid previousDistinctId distinctId teamId retry db) = persons db
       \<and> findPerson (alias_fn now uuid previousDistinctId distinctId teamId retry db) teamId previousDistinctId = Some b
       \<and> findPerson (alias_fn now uuid previousDistinctId distinctId teamId retry db) teamId distinctId = Some b"
proof -
  let ?db2 = "postgresQuery (SelectPerson teamId distinctId)
                (postgresQuery (SelectPerson teamId previousDistinctId) db)"
  have eq: "alias_fn now uuid previousDistinctId distinctId teamId retry db
              = detach (addDistinctId b previousDistinctId ?db2)"
    by (subst alias_fn_unfold) (simp add: old new Let_def)
  from old new have ne: "distinctId \<noteq> previousDistinctId" by auto
  from findPerson_Some [OF new] have b: "b \<in> set (persons ?db2)" "p_team_id b = teamId" by simp_all
  have wf2: "wellFormed ?db2" using wf by simp
  have free: "findPerson ?db2 teamId previousDistinctId = None" using old by simp
  from attach_free_id [OF wf2 b free] ne new show ?thesis
    unfolding eq by simp
qed

lemma alias_creates_person:
  fixes now :: int and uuid :: string
  assumes wf: "wellFormed db" and ok: "insertPersonError db = None"
    and old: "findPerson db teamId previousDistinctId = None"
    and new: "findPerson db teamId distinctId = None"
  defines "p \<equiv> \<lparr>p_id = nextPersonId db, p_team_id = teamId, p_created_at = now,
                   p_properties = [], p_is_identified = False, p_uuid = uuid\<rparr>"
  shows "persons (alias_fn now uuid previousDistinctId distinctId teamId retry db) = persons db @ [p]
       \<and> findPerson (alias_fn now uuid previousDistinctId distinctId teamId retry db) teamId previousDistinctId = Some p
       \<and> findPerson (alias_fn now uuid previousDistinctId distinctId teamId retry db) teamId distinctId = Some p"
proof -
  let ?db2 = "postgresQuery (SelectPerson teamId distinctId)
                (postgresQuery (SelectPerson teamId previousDistinctId) db)"
  let ?db3 = "snd (createPerson now [] teamId False uuid ?db2)"
  let ?db4 = "detach (addDistinctId p distinctId ?db3)"
  let ?db5 = "detach (addDistinctId p previousDistinctId ?db4)"
  have wf2: "wellFormed ?db2" using wf by simp
  have ok2: "insertPersonError ?db2 = None" using ok by simp
  from createPerson_fresh [OF wf2 ok2, of now "[]" teamId False uuid]
  have c1: "fst (createPerson now [] teamId False uuid ?db2) = Inr p"
    and c2: "persons ?db3 = persons db @ [p]"
    and c3: "wellFormed ?db3"
    and c4: "\<And>t d. findPerson ?db3 t d = findPerson db t d"
    by (simp_all add: p_def)
  have eq: "alias_fn now uuid previousDistinctId distinctId teamId retry db = ?db5"
    by (subst alias_fn_unfold) (simp add: old new c1 Let_def)
  have p3: "p \<in> set (persons ?db3)" using c2 by simp
  have pt: "p_team_id p = teamId" by (simp add: p_def)
  have free3: "findPerson ?db3 teamId distinctId = None" using c4 new by simp
  from attach_free_id [OF c3 p3 pt free3]
  have d1: "persons ?db4 = persons ?db3"
    and d2: "findPerson ?db4 teamId distinctId = Some p"
    and d3: "\<And>d'. d' \<noteq> distinctId \<Longrightarrow> findPerson ?db4 teamId d' = findPerson ?db3 teamId d'"
    and d4: "wellFormed ?db4"
    by simp_all
  show ?thesis
  proof (cases "previousDistinctId = distinctId")
    case True
    from findPerson_Some [OF d2]
    have "list_ex (\<lambda>r. pdi_team_id r = p_team_id p \<and> pdi_distinct_id r = previousDistinctId) (distinctIds ?db4)"
      by (auto simp: True pt hasDistinctId_def list_ex_iff)
    from attach_taken_id [OF this]
    have t1: "persons ?db5 = persons ?db4" and t2: "distinctIds ?db5 = distinctIds ?db4"
      by simp_all
    have "findPerson ?db5 teamId distinctId = findPerson ?db4 teamId distinctId"
      by (rule findPerson_fields [OF t1 t2])
    with t1 d1 d2 c2 True show ?thesis unfolding eq by simp
  next
    case False
    have p4: "p \<in> set (persons ?db4)" using d1 p3 by simp
    have free4: "findPerson ?db4 teamId previousDistinctId = None"
      using d3 [OF False] c4 old by simp
    from attach_free_id [OF d4 p4 pt free4]
    have e1: "persons ?db5 = persons ?db4"
      and e2: "findPerson ?db5 teamId previousDistinctId = Some p"
      and e3: "\<And>d'. d' \<noteq> previousDistinctId \<Longrightarrow> findPerson ?db5 teamId d' = findPerson ?db4 teamId d'"
      by simp_all
    from False have "distinctId \<noteq> previousDistinctId" by simp
    from e3 [OF this] d2 have "findPerson ?db5 teamId distinctId = Some p" by simp
    with e1 e2 d1 c2 show ?thesis unfolding eq by simp
  qed
qed

lemma wellFormed_twoPersonsDB: "wellFormed twoPersonsDB"
  by (simp add: wellFormed_def twoPersonsDB_def emptyDB_def anonPerson_def userPerson_def)

lemma wellFormed_emptyDB: "wellFormed emptyDB"
  by (simp add: wellFormed_def emptyDB_def)

lemma findPerson_twoPersonsDB:
  "findPerson twoPersonsDB 2 ''anon'' = Some anonPerson"
  "findPerson twoPersonsDB 2 ''user'' = Some userPerson"
  "findPerson twoPersonsDB 2 ''device'' = None"
  by (simp_all add: findPerson_def hasDistinctId_def twoPersonsDB_def emptyDB_def
        anonPerson_def userPerson_def)

text \<open>
  The three cases of alias in which at most one of the two ids is known, on concrete
  stores: \<open>device\<close> attached to the person of \<open>anon\<close>; \<open>device\<close> attached to the
  person of \<open>user\<close>; one person created on the empty store and found under both
  \<open>anon\<close> and \<open>user\<close>.
\<close>

lemma alias_attach_and_create_samples:
  "findPerson (alias_fn 100 ''uuid-3'' ''anon'' ''device'' 2 True twoPersonsDB) 2 ''device''
        = Some anonPerson
   \<and> findPerson (alias_fn 100 ''uuid-3'' ''device'' ''user'' 2 True twoPersonsDB) 2 ''device''
        = Some userPerson
   \<and> persons (alias_fn 100 ''uuid-3'' ''anon'' ''user'' 2 True emptyDB)
        = [\<lparr>p_id = 1, p_team_id = 2, p_created_at = 100, p_properties = [],
            p_is_identified = False, p_uuid = ''uuid-3''\<rparr>]
   \<and> findPerson (alias_fn 100 ''uuid-3'' ''anon'' ''user'' 2 True emptyDB) 2 ''anon''
        = findPerson (alias_fn 100 ''uuid-3'' ''anon'' ''user'' 2 True emptyDB) 2 ''user''"
proof -
  have ok0: "insertPersonError emptyDB = None"
    by (simp add: emptyDB_def)
  have none0: "findPerson emptyDB 2 ''anon'' = None" "findPerson emptyDB 2 ''user'' = None"
    by (simp_all add: findPerson_def emptyDB_def)
  have next0: "nextPersonId emptyDB = 1" "persons emptyDB = []"
    by (simp_all add: emptyDB_def)
  have a: "findPerson (alias_fn 100 ''uuid-3'' ''anon'' ''device'' 2 True twoPersonsDB) 2 ''device''
             = Some anonPerson"
    using alias_attaches_current [OF wellFormed_twoPersonsDB findPerson_twoPersonsDB(1)
        findPerson_twoPersonsDB(3), of 100 "''uuid-3''" True]
    by simp
  have b: "findPerson (alias_fn 100 ''uuid-3'' ''device'' ''user'' 2 True twoPersonsDB) 2 ''device''
             = Some userPerson"
    using alias_attaches_previous [OF wellFormed_twoPersonsDB findPerson_twoPersonsDB(3)
        findPerson_twoPersonsDB(2), of 100 "''uuid-3''" True]
    by simp
  have c: "persons (alias_fn 100 ''uuid-3'' ''anon'' ''user'' 2 True emptyDB)
        = [\<lparr>p_id = 1, p_team_id = 2, p_created_at = 100, p_properties = [],
            p_is_identified = False, p_uuid = ''uuid-3''\<rparr>]
      \<and> findPerson (alias_fn 100 ''uuid-3'' ''anon'' ''user'' 2 True emptyDB) 2 ''anon''
        = findPerson (alias_fn 100 ''uuid-3'' ''anon'' ''user'' 2 True emptyDB) 2 ''user''"
    using alias_creates_person [OF wellFormed_emptyDB ok0 none0, of 100 "''uuid-3''" True]
    by (simp add: next0)
  from a b c show ?thesis by blast
qed

lemmas store_defs =
  fetchPerson_def findPerson_def hasDistinctId_def createPerson_def addDistinctId_def
  updatePerson_def applyUpdate_def deletePerson_def updateDistinctId_def selectDistinctIds_def
  selectCohortPeople_def updateCohortPeople_def postgresQuery_def sendIfProducer_def
  await_def await_unit_def detach_def assign_def objectSpread_def

text \<open>
  Whoever is merged into whom, on whatever store: mergePeople stops at the selection of the
  first person's distinct ids. No distinct id and no cohort membership is repointed, nobody
  is deleted, and no row's properties change.
\<close>

lemma mergePeople_stops_early:
  "fst (mergePeople mergeInto (otherPerson # others) db) = Inl InvalidTextRepresentation
   \<and> distinctIds (snd (mergePeople mergeInto (otherPerson # others) db)) = distinctIds db
   \<and> cohortPeople (snd (mergePeople mergeInto (otherPerson # others) db)) = cohortPeople db
   \<and> map p_id (persons (snd (mergePeople mergeInto (otherPerson # others) db))) = map p_id (persons db)
   \<and> map p_properties (persons (snd (mergePeople mergeInto (otherPerson # others) db)))
        = map p_properties (persons db)"
  by (simp add: mergePeople_def mergeOne_def updatePerson_def applyUpdate_def selectDistinctIds_def
        await_def postgresQuery_def sendIfProducer_def Let_def comp_def)

lemma detach_tables:
  "persons (detach r) = persons (snd r)"
  "distinctIds (detach r) = distinctIds (snd r)"
  "cohortPeople (detach r) = cohortPeople (snd r)"
  by (simp_all add: detach_def split: sum.splits)

text \<open>
  When both ids are known, on whatever store and whether the two persons differ or not,
  alias leaves every distinct-id row and every cohort membership as it was, deletes nobody
  and changes nobody's properties.
\<close>

lemma alias_both_exist_tables:
  assumes old: "findPerson db teamId previousDistinctId = Some a"
    and new: "findPerson db teamId distinctId = Some b"
  shows "distinctIds (alias_fn now uuid previousDistinctId distinctId teamId retry db) = distinctIds db
       \<and> cohortPeople (alias_fn now uuid previousDistinctId distinctId teamId retry db) = cohortPeople db
       \<and> map p_id (persons (alias_fn now uuid previousDistinctId distinctId teamId retry db))
            = map p_id (persons db)
       \<and> map p_properties (persons (alias_fn now uuid previousDistinctId distinctId teamId retry db))
            = map p_properties (persons db)"
proof -
  let ?db2 = "postgresQuery (SelectPerson teamId distinctId)
                (postgresQuery (SelectPerson teamId previousDistinctId) db)"
  have eq: "alias_fn now uuid previousDistinctId distinctId teamId retry db
              = (if p_id a \<noteq> p_id b then detach (mergePeople b [a] ?db2) else ?db2)"
    by (subst alias_fn_unfold) (simp add: old new Let_def)
  from mergePeople_stops_early [of b a "[]" ?db2]
  show ?thesis unfolding eq by (simp add: detach_tables)
qed

text \<open>
  C3, at a failing input. Of the four cases of alias(previous, current, team), the three
  in which at most one of the two ids is known hold on every well-formed store
  (lemmas \<open>alias_attaches_current\<close>, \<open>alias_attaches_previous\<close> and
  \<open>alias_creates_person\<close>). The fourth does not: on the store with person 1 under
  \<open>anon\<close> and person 2 under \<open>user\<close>, two distinct persons, alias of \<open>anon\<close> with
  \<open>user\<close> merges nobody. Afterwards \<open>anon\<close> still resolves to person 1 and \<open>user\<close>
  to person 2 (whose created_at alone changed), both persons are still in the store, and
  each distinct-id row points where it pointed before.
\<close>

theorem alias_distinct_persons_not_merged:
  "(let db' = alias_fn 100 ''uuid-3'' ''anon'' ''user'' 2 True twoPersonsDB
    in findPerson twoPersonsDB 2 ''anon'' = Some anonPerson
       \<and> findPerson twoPersonsDB 2 ''user'' = Some userPerson
       \<and> p_id anonPerson = 1 \<and> p_id userPerson = 2
       \<and> findPerson db' 2 ''anon'' = Some anonPerson
       \<and> findPerson db' 2 ''user'' = Some (userPerson\<lparr>p_created_at := 10\<rparr>)
       \<and> map p_id (persons db') = [1, 2]
       \<and> map pdi_person_id (distinctIds db') = [1, 2])"
  by (subst alias_fn_unfold)
     (simp add: store_defs mergePeople_def mergeOne_def mergeProperties_def
        twoPersonsDB_def emptyDB_def anonPerson_def userPerson_def Let_def)

text \<open>
  When the store accepts the insertion of a person, the retry flag has no effect, whatever
  becomes of the insertions of distinct ids: no violation of theirs starts a second pass.
\<close>

lemma alias_retry_flag_unused:
  assumes "insertPersonError db = None"
  shows "alias_fn now uuid previousDistinctId distinctId teamId True db
           = alias_fn now uuid previousDistinctId distinctId teamId False db"
proof -
  let ?db2 = "postgresQuery (SelectPerson teamId distinctId)
                (postgresQuery (SelectPerson teamId previousDistinctId) db)"
  have "\<exists>p. fst (createPerson now [] teamId False uuid ?db2) = Inr p"
    using assms by (simp add: createPerson_def postgresQuery_def Let_def)
  then obtain p where p: "fst (createPerson now [] teamId False uuid ?db2) = Inr p" ..
  show ?thesis
    by (subst (1 2) alias_fn_unfold) (simp add: p Let_def split: option.splits)
qed

text \<open>
  C4, at a failing input: alias of \<open>anon\<close> (person 1, first seen at 10, properties
  plan = free and city = Oslo, one cohort membership) with \<open>user\<close> (person 2, first seen
  at 20, properties plan = paid). mergePeople writes the earlier created_at to person 2 and
  then selects the distinct ids with the whole person object as the id parameter; the store
  rejects the statement and the promise, which alias does not await, is rejected. Person 1
  is still there with its distinct id and its cohort membership, and the row of person 2
  keeps its own properties: the merged properties were only sent to the broker, since the
  UPDATE sets created_at alone.
\<close>

theorem alias_merge_incomplete:
  "(let db' = alias_fn 100 ''uuid-3'' ''anon'' ''user'' 2 True twoPersonsDB
    in persons db' = [anonPerson, userPerson\<lparr>p_created_at := 10\<rparr>]
       \<and> distinctIds db' = distinctIds twoPersonsDB
       \<and> cohortPeople db' = cohortPeople twoPersonsDB
       \<and> unhandledRejections db' = [InvalidTextRepresentation]
       \<and> produced db' = [PersonMessage (userPerson\<lparr>p_created_at := 10,
              p_properties := [(''plan'', JStr ''paid''), (''city'', JStr ''Oslo'')]\<rparr>)])"
  by (subst alias_fn_unfold)
     (simp add: store_defs mergePeople_def mergeOne_def mergeProperties_def
        twoPersonsDB_def emptyDB_def anonPerson_def userPerson_def Let_def)

text \<open>
  C5, at a failing input: alias(x, x) on the empty store. The second insertion of \<open>x\<close>
  violates the unique constraint. Its promise is not awaited, so the violation reaches no
  catch block: it is left unhandled, and the statements issued show a single pass (two
  selects, one person, two insertions) although retryIfFailed was set.
\<close>

theorem alias_violation_unhandled:
  "(let db' = alias_fn 100 ''uuid-3'' ''x'' ''x'' 2 True emptyDB
    in statements db' =
         [SelectPerson 2 ''x'', SelectPerson 2 ''x'', InsertPerson,
          InsertDistinctId ''x'' 1 2, InsertDistinctId ''x'' 1 2]
       \<and> unhandledRejections db' = [UniqueViolation ''x'']
       \<and> map pdi_distinct_id (distinctIds db') = [''x''])"
  by (subst alias_fn_unfold) (simp add: store_defs emptyDB_def Let_def)

text \<open>
  Where the merge of C8 holds: for a person that exists, the properties written are
  set_once, overridden by the existing properties, overridden by set.
\<close>

lemma map_of_assign:
  "distinct (map fst source) \<Longrightarrow> map_of (assign target source) = map_of target ++ map_of source"
proof (induction source arbitrary: target)
  case Nil
  then show ?case by (simp add: assign_def)
next
  case (Cons kv source)
  obtain k v where kv: "kv = (k, v)" by (cases kv)
  from Cons.prems have fresh: "map_of source k = None" and rest: "distinct (map fst source)"
    by (auto simp: kv map_of_eq_None_iff)
  have "assign target (kv # source) = assign (AList.update k v target) source"
    by (simp add: assign_def kv)
  then have "map_of (assign target (kv # source)) = (map_of target)(k \<mapsto> v) ++ map_of source"
    by (simp add: Cons.IH [OF rest] update_conv' fun_upd_def)
  also have "\<dots> = map_of target ++ map_of (kv # source)"
    using fresh by (auto simp: kv fun_eq_iff map_add_def split: option.splits)
  finally show ?case .
qed

lemma map_of_objectSpread3:
  assumes "distinct (map fst existing)" and "distinct (map fst properties)"
    and "distinct (map fst propertiesOnce)"
  shows "map_of (objectSpread [propertiesOnce, existing, properties])
           = map_of propertiesOnce ++ map_of existing ++ map_of properties"
  using assms by (simp add: objectSpread_def map_of_assign)

lemma updatePersonProperties_existing:
  assumes "findPerson db teamId distinctId = Some person"
  shows "fst (updatePersonProperties now uuid teamId distinctId properties propertiesOnce db)
           = Inr (person\<lparr>p_properties := objectSpread [propertiesOnce, p_properties person, properties]\<rparr>)
       \<and> persons (snd (updatePersonProperties now uuid teamId distinctId properties propertiesOnce db))
           = map (\<lambda>row. if p_id row = p_id person
                          then row\<lparr>p_properties :=
                                 objectSpread [propertiesOnce, p_properties person, properties]\<rparr>
                          else row) (persons db)"
  using assms
  by (simp add: updatePersonProperties_def fetchPerson_def updatePerson_def applyUpdate_def
        postgresQuery_def sendIfProducer_def Let_def)

text \<open>
  C8, at a failing input: an identify-driven update for a distinct id that has no person
  yet, with $set = {email} and $set_once = {initial_referrer}. The person is created with
  the $set properties only; personFound is never assigned on this path, so reading its
  properties throws. The merge of set_once, existing and set would be
  {initial_referrer, email}.
\<close>

theorem updatePersonProperties_new_person:
  "(let r = updatePersonProperties 100 ''uuid-1'' 2 ''new-user''
              [(''email'', JStr ''a@b.c'')] [(''initial_referrer'', JStr ''google'')] emptyDB
    in fst r = Inl (TypeError ''personFound is undefined'')
       \<and> map p_properties (persons (snd r)) = [[(''email'', JStr ''a@b.c'')]]
       \<and> objectSpread [[(''initial_referrer'', JStr ''google'')], [], [(''email'', JStr ''a@b.c'')]]
            = [(''initial_referrer'', JStr ''google''), (''email'', JStr ''a@b.c'')])"
  by (simp add: updatePersonProperties_def store_defs emptyDB_def Let_def)

section \<open>Properties of plugin setup\<close>

lemma addConfigRow_team:
  "map_of (snd (addConfigRow server att acc row)) teamId =
     (if map_of (plugins server) (pc_plugin_id row) \<noteq> None \<and> pc_team_id row = Some teamId
         \<and> teamId \<noteq> 0
      then (case map_of (plugins server) (pc_plugin_id row) of
              None \<Rightarrow> None
            | Some plugin \<Rightarrow>
                Some ((case map_of (snd acc) teamId of None \<Rightarrow> [] | Some cs \<Rightarrow> cs)
                      @ [\<lparr>pc_id = pc_id row, pc_team_id = pc_team_id row,
                          pc_plugin_id = pc_plugin_id row, pc_order = pc_order row,
                          pc_updated_at = pc_updated_at row, pc_plugin = plugin,
                          pc_attachments = (case map_of att (pc_id row) of None \<Rightarrow> [] | Some a \<Rightarrow> a),
                          pc_vm = None\<rparr>]))
      else map_of (snd acc) teamId)"
  by (auto simp: addConfigRow_def Let_def update_conv' split: option.splits)

lemma addConfigRow_order_id:
  "map (\<lambda>c. (pc_order c, pc_id c))
           (case map_of (snd (addConfigRow server att acc row)) teamId of None \<Rightarrow> [] | Some cs \<Rightarrow> cs)
       = map (\<lambda>c. (pc_order c, pc_id c))
           (case map_of (snd acc) teamId of None \<Rightarrow> [] | Some cs \<Rightarrow> cs)
         @ map (\<lambda>row. (pc_order row, pc_id row)) (teamRows server teamId [row])"
  by (simp add: addConfigRow_team teamRows_def split: option.splits)

lemma loaded_order_id:
  "map (\<lambda>c. (pc_order c, pc_id c))
           (case map_of (snd (foldl (addConfigRow server att) acc rows)) teamId of
              None \<Rightarrow> [] | Some cs \<Rightarrow> cs)
       = map (\<lambda>c. (pc_order c, pc_id c))
           (case map_of (snd acc) teamId of None \<Rightarrow> [] | Some cs \<Rightarrow> cs)
         @ map (\<lambda>row. (pc_order row, pc_id row)) (teamRows server teamId rows)"
proof (induction rows arbitrary: acc)
  case Nil
  then show ?case by (simp add: teamRows_def)
next
  case (Cons row rows)
  have "teamRows server teamId (row # rows) = teamRows server teamId [row] @ teamRows server teamId rows"
    by (simp add: teamRows_def)
  then show ?case
    by (simp add: Cons.IH addConfigRow_order_id)
qed

lemma resolveVm_keeps_row [simp]:
  "pc_order (resolveVm server loadPlugin loaded c) = pc_order c"
  "pc_id (resolveVm server loadPlugin loaded c) = pc_id c"
  by (simp_all add: resolveVm_def Let_def split: option.splits)

lemma map_of_map_entry:
  "map_of (map (\<lambda>entry. (fst entry, f (snd entry))) xs) k = map_option f (map_of xs k)"
  by (induction xs) auto

lemma runPipeline_visits:
  "snd (runPipeline cs event) = take (length (snd (runPipeline cs event))) (map pc_id cs)
   \<and> (fst (runPipeline cs event) \<noteq> None \<longrightarrow> snd (runPipeline cs event) = map pc_id cs)"
proof (induction cs arbitrary: event)
  case Nil
  then show ?case by simp
next
  case (Cons c cs)
  show ?case
    using Cons.IH
    by (simp add: Let_def split: plugin_result.splits option.splits)
qed

text \<open>
  C1, as the code has it. After setupPlugins, the list of every team is sorted ascending by
  order, and configs of equal order keep the order in which their rows were loaded (the
  comparator looks at order alone and the sort is stable). For an event of the team, the
  pipeline visits the configs in the order of this list: the ids visited are a prefix of the
  list's ids, and the whole list when no plugin drops the event.
\<close>

theorem setupPlugins_team_order:
  assumes "map_of (pluginConfigsPerTeam
             (setupPlugins loadPlugin pluginRows pluginAttachmentRows pluginConfigRows server)) teamId
           = Some configs"
  shows "sorted (map pc_order configs)
       \<and> (\<forall>k. map pc_id (filter (\<lambda>c. pc_order c = k) configs)
                = map pc_id (filter (\<lambda>row. pc_order row = k) (teamRows server teamId pluginConfigRows)))
       \<and> (ev_team_id event = teamId \<longrightarrow>
            (let run = runPlugins
                         (setupPlugins loadPlugin pluginRows pluginAttachmentRows pluginConfigRows server)
                         event
             in snd run = take (length (snd run)) (map pc_id configs)
                \<and> (fst run \<noteq> None \<longrightarrow> snd run = map pc_id configs)))"
proof -
  let ?loaded = "loadPluginsFromDB server pluginRows pluginAttachmentRows pluginConfigRows"
  let ?withVm = "resolveVm server loadPlugin (plugins ?loaded)"
  let ?server' = "setupPlugins loadPlugin pluginRows pluginAttachmentRows pluginConfigRows server"
  let ?key = "\<lambda>c. (pc_order c, pc_id c)"
  have "map_of (pluginConfigsPerTeam ?server') teamId
          = map_option (\<lambda>cs. sort_key pc_order (map ?withVm cs))
              (map_of (pluginConfigsPerTeam ?loaded) teamId)"
    using map_of_map_entry [where f = "\<lambda>cs. sort_key pc_order (map ?withVm cs)"
            and xs = "pluginConfigsPerTeam ?loaded" and k = teamId]
    by (simp add: setupPlugins_def Let_def)
  with assms obtain loadedConfigs
    where L: "map_of (pluginConfigsPerTeam ?loaded) teamId = Some loadedConfigs"
      and C: "configs = sort_key pc_order (map ?withVm loadedConfigs)"
    by auto
  have sorted: "sorted (map pc_order configs)"
    unfolding C by (rule sorted_sort_key)
  have rows: "map ?key loadedConfigs
                = map (\<lambda>row. (pc_order row, pc_id row)) (teamRows server teamId pluginConfigRows)"
    using loaded_order_id [of server "foldl addAttachment [] pluginAttachmentRows" "([], [])"
            pluginConfigRows teamId] L
    by (simp add: loadPluginsFromDB_def Let_def)
  have stable: "map pc_id (filter (\<lambda>c. pc_order c = k) configs)
                = map pc_id (filter (\<lambda>row. pc_order row = k) (teamRows server teamId pluginConfigRows))"
    for k
  proof -
    have "filter (\<lambda>c. pc_order c = k) configs = filter (\<lambda>c. pc_order c = k) (map ?withVm loadedConfigs)"
      unfolding C by (rule sort_key_stable)
    then have "map ?key (filter (\<lambda>c. pc_order c = k) configs)
                 = filter (\<lambda>p. fst p = k) (map ?key loadedConfigs)"
      by (simp add: filter_map comp_def)
    also have "\<dots> = map (\<lambda>row. (pc_order row, pc_id row))
                        (filter (\<lambda>row. pc_order row = k) (teamRows server teamId pluginConfigRows))"
      by (simp add: rows filter_map comp_def)
    finally have "map snd (map ?key (filter (\<lambda>c. pc_order c = k) configs))
                 = map snd (map (\<lambda>row. (pc_order row, pc_id row))
                        (filter (\<lambda>row. pc_order row = k) (teamRows server teamId pluginConfigRows)))"
      by simp
    then show ?thesis by (simp add: comp_def)
  qed
  have visits: "ev_team_id event = teamId \<longrightarrow>
            (let run = runPlugins ?server' event
             in snd run = take (length (snd run)) (map pc_id configs)
                \<and> (fst run \<noteq> None \<longrightarrow> snd run = map pc_id configs))"
    using runPipeline_visits [of configs event] assms
    by (simp add: runPlugins_def Let_def)
  from sorted stable visits show ?thesis by blast
qed

lemmas setup_defs =
  setupPlugins_def loadPluginsFromDB_def addConfigRow_def addAttachment_def resolveVm_def
  serverWithPlugin60_def sampleConfigRows_def plugin60_def

text \<open>
  C1 as stated fails: rows 41 and 40 share order 1 and are loaded in this order, so the
  list of team 2 is 39, 41, 40, which is not ascending by (order, id).
\<close>

theorem setupPlugins_ties_cex:
  "(case map_of (pluginConfigsPerTeam
            (setupPlugins (\<lambda>c. None) [plugin60] [] sampleConfigRows serverWithPlugin60)) 2 of
      None \<Rightarrow> False
    | Some configs \<Rightarrow>
        map (\<lambda>c. (pc_order c, pc_id c)) configs = [(0, 39), (1, 41), (1, 40)]
        \<and> \<not> sorted_wrt orderIdBefore configs)"
  by (simp add: setup_defs orderIdBefore_def Let_def)

text \<open>
  C1 on the same rows: the list of team 2 and the ids the pipeline visits.
\<close>

theorem setupPlugins_team_order_witness:
  "map_of (pluginConfigsPerTeam
      (setupPlugins (\<lambda>c. None) [plugin60] [] sampleConfigRows serverWithPlugin60)) 2
     = Some (map (\<lambda>row. \<lparr>pc_id = pc_id row, pc_team_id = pc_team_id row,
                           pc_plugin_id = pc_plugin_id row, pc_order = pc_order row,
                           pc_updated_at = pc_updated_at row, pc_plugin = plugin60,
                           pc_attachments = [], pc_vm = None\<rparr>)
              [sampleConfigRows ! 2, sampleConfigRows ! 0, sampleConfigRows ! 1])
   \<and> ev_team_id sampleEvent = 2
   \<and> snd (runPlugins (setupPlugins (\<lambda>c. None) [plugin60] [] sampleConfigRows serverWithPlugin60)
            sampleEvent) = [39, 41, 40]"
proof -
  let ?configs = "map (\<lambda>row. \<lparr>pc_id = pc_id row, pc_team_id = pc_team_id row,
                           pc_plugin_id = pc_plugin_id row, pc_order = pc_order row,
                           pc_updated_at = pc_updated_at row, pc_plugin = plugin60,
                           pc_attachments = [], pc_vm = None\<rparr>)
              [sampleConfigRows ! 2, sampleConfigRows ! 0, sampleConfigRows ! 1]"
  have h: "map_of (pluginConfigsPerTeam
      (setupPlugins (\<lambda>c. None) [plugin60] [] sampleConfigRows serverWithPlugin60)) 2 = Some ?configs"
    by (simp add: setup_defs Let_def)
  have e: "ev_team_id sampleEvent = 2"
    by (simp add: sampleEvent_def)
  have ids: "map pc_id ?configs = [39, 41, 40]"
    by (simp add: sampleConfigRows_def)
  have alive: "fst (runPlugins (setupPlugins (\<lambda>c. None) [plugin60] [] sampleConfigRows serverWithPlugin60)
            sampleEvent) \<noteq> None"
    by (simp add: runPlugins_def h e Let_def)
  from setupPlugins_team_order [OF h, of sampleEvent] e alive
  have "snd (runPlugins (setupPlugins (\<lambda>c. None) [plugin60] [] sampleConfigRows serverWithPlugin60)
            sampleEvent) = map pc_id ?configs"
    by (simp add: Let_def)
  with h e ids show ?thesis by simp
qed

section \<open>Properties of lazy plugin VMs\<close>

declare initializeWithRetries.simps [simp del]

lemma retryDelays_append: "retryDelays (xs @ ys) = retryDelays xs @ retryDelays ys"
  by (induction xs rule: retryDelays.induct) simp_all

lemma initialize_cases:
  "initialize outcome vm =
     (if outcome = VmCreated
      then ([LogPluginLoaded, ClearError], vm\<lparr>resolveInternalVm := ResolvedVm\<rparr>, None)
      else if outcome = ThrewRetryError \<and> totalInitAttemptsCounter vm < 10
      then ([LogRetrying (2 ^ (totalInitAttemptsCounter vm - 1) * 3000 div 1000),
             SetTimeout (2 ^ (totalInitAttemptsCounter vm - 1) * 3000)],
            vm\<lparr>initRetryTimeout := Some (2 ^ (totalInitAttemptsCounter vm - 1) * 3000),
               resolveInternalVm := ResolvedNull\<rparr>,
            Some (2 ^ (totalInitAttemptsCounter vm - 1) * 3000))
      else ([LogDisabled (outcome = ThrewRetryError), DisablePlugin, ProcessError],
            vm\<lparr>resolveInternalVm := ResolvedNull\<rparr>, None))"
  by (cases outcome)
     (simp_all add: initialize_def MAX_SETUP_RETRIES_def INITIALIZATION_RETRY_MULTIPLIER_def
        INITIALIZATION_RETRY_BASE_MS_def Let_def)

lemma retryPolicy_general:
  "retryPolicyHolds outcomeOf (totalInitAttemptsCounter vm) (initializeWithRetries outcomeOf vm)"
proof (induction outcomeOf vm rule: initializeWithRetries.induct)
  case (1 outcomeOf vm)
  let ?c = "totalInitAttemptsCounter vm"
  let ?r = "initialize (outcomeOf ?c) vm"
  show ?case
  proof (cases "outcomeOf ?c = ThrewRetryError \<and> ?c < 10")
    case False
    then have stop: "snd (snd ?r) = None"
      by (simp add: initialize_cases)
    have run: "initializeWithRetries outcomeOf vm = (fst ?r, fst (snd ?r))"
      by (subst initializeWithRetries.simps) (simp add: stop Let_def)
    from False show ?thesis
      unfolding run retryPolicyHolds_def
      by (cases "outcomeOf ?c") (auto simp: initialize_cases Let_def)
  next
    case True
    let ?ms = "2 ^ (?c - 1) * 3000 :: nat"
    let ?vm1 = "initVm (fst (snd ?r))"
    from True have again: "snd (snd ?r) = Some ?ms"
      by (simp add: initialize_cases)
    from True have effs: "fst ?r = [LogRetrying (?ms div 1000), SetTimeout ?ms]"
      by (simp add: initialize_cases)
    have c1: "totalInitAttemptsCounter ?vm1 = ?c + 1"
      using True by (simp add: initialize_cases initVm_def)
    have run: "initializeWithRetries outcomeOf vm
                 = (fst ?r @ fst (initializeWithRetries outcomeOf ?vm1),
                    snd (initializeWithRetries outcomeOf ?vm1))"
      by (subst initializeWithRetries.simps) (simp add: again Let_def)
    from "1.IH" [OF refl again]
    have ih: "retryPolicyHolds outcomeOf (?c + 1) (initializeWithRetries outcomeOf ?vm1)"
      by (simp add: c1)
    let ?later = "initializeWithRetries outcomeOf ?vm1"
    let ?n = "totalInitAttemptsCounter (snd ?later)"
    from ih have n: "?c + 1 \<le> ?n" "?n \<le> 10"
      using True by (simp_all add: retryPolicyHolds_def Let_def)
    from ih have delays: "retryDelays (fst ?later) = map (\<lambda>k. 3000 * 2 ^ (k - 1)) [?c + 1..<?n]"
      by (simp add: retryPolicyHolds_def Let_def)
    from n have split: "[?c..<?n] = ?c # [?c + 1..<?n]"
      by (simp add: upt_conv_Cons)
    have d: "retryDelays (fst ?r @ fst ?later) = map (\<lambda>k. 3000 * 2 ^ (k - 1)) [?c..<?n]"
      by (simp add: retryDelays_append effs delays split)
    from ih have later: "\<forall>k. ?c + 1 \<le> k \<and> k < ?n \<longrightarrow> outcomeOf k = ThrewRetryError"
      by (simp add: retryPolicyHolds_def Let_def)
    have all: "\<forall>k. ?c \<le> k \<and> k < ?n \<longrightarrow> outcomeOf k = ThrewRetryError"
    proof (intro allI impI)
      fix k assume k: "?c \<le> k \<and> k < ?n"
      show "outcomeOf k = ThrewRetryError"
      proof (cases "k = ?c")
        case True
        with \<open>outcomeOf ?c = ThrewRetryError \<and> ?c < 10\<close> show ?thesis by simp
      next
        case False
        with k have "?c + 1 \<le> k \<and> k < ?n" by simp
        with later show ?thesis by blast
      qed
    qed
    from ih have fin: "if outcomeOf ?n = VmCreated then resolveInternalVm (snd ?later) = ResolvedVm
             else (outcomeOf ?n = ThrewOtherError \<or> 10 \<le> ?n)
                  \<and> resolveInternalVm (snd ?later) = ResolvedNull
                  \<and> (\<exists>earlier. fst ?later = earlier @ [LogDisabled (outcomeOf ?n = ThrewRetryError),
                                                      DisablePlugin, ProcessError])"
      by (simp add: retryPolicyHolds_def Let_def)
    then have fin': "if outcomeOf ?n = VmCreated then resolveInternalVm (snd ?later) = ResolvedVm
             else (outcomeOf ?n = ThrewOtherError \<or> 10 \<le> ?n)
                  \<and> resolveInternalVm (snd ?later) = ResolvedNull
                  \<and> (\<exists>earlier. fst ?r @ fst ?later = earlier @ [LogDisabled (outcomeOf ?n = ThrewRetryError),
                                                      DisablePlugin, ProcessError])"
      by (auto split: if_splits)
    have S: "snd (initializeWithRetries outcomeOf vm) = snd ?later"
      and F: "fst (initializeWithRetries outcomeOf vm) = fst ?r @ fst ?later"
      by (simp_all add: run)
    from n have n0: "?c \<le> ?n" by simp
    show ?thesis
      unfolding retryPolicyHolds_def Let_def S F
    proof (intro conjI impI)
      show "?c \<le> ?n" by (rule n0)
      show "?n \<le> 10" by (rule n(2))
      show "retryDelays (fst ?r @ fst ?later) = map (\<lambda>k. 3000 * 2 ^ (k - 1)) [?c..<?n]" by (rule d)
      show "\<forall>k. ?c \<le> k \<and> k < ?n \<longrightarrow> outcomeOf k = ThrewRetryError" by (rule all)
      show "if outcomeOf ?n = VmCreated then resolveInternalVm (snd ?later) = ResolvedVm
             else (outcomeOf ?n = ThrewOtherError \<or> 10 \<le> ?n)
                  \<and> resolveInternalVm (snd ?later) = ResolvedNull
                  \<and> (\<exists>earlier. fst ?r @ fst ?later = earlier @ [LogDisabled (outcomeOf ?n = ThrewRetryError),
                                                      DisablePlugin, ProcessError])" by (rule fin')
    qed
  qed
qed

text \<open>
  C6. Whatever the attempts run into, a handle makes \<open>n\<close> attempts with
  1 \<le> n \<le> 10. Each attempt before the last threw a RetryError, and the k-th of them set
  a retry timer of 3 * 2 ^ (k - 1) seconds. If the last attempt did not create the VM, then
  it threw a non-retryable error or it was the tenth attempt, and in both cases the plugin
  is disabled, the error is recorded and the handle resolves to null.
\<close>

theorem lazy_vm_retry_policy:
  "(let run = initializeWithRetries outcomeOf newLazyPluginVM;
        n = totalInitAttemptsCounter (snd run)
    in 1 \<le> n \<and> n \<le> MAX_SETUP_RETRIES
       \<and> retryDelays (fst run) = map (\<lambda>k. 1000 * (3 * 2 ^ (k - 1))) [1..<n]
       \<and> (\<forall>k. 1 \<le> k \<and> k < n \<longrightarrow> outcomeOf k = ThrewRetryError)
       \<and> (if outcomeOf n = VmCreated then resolveInternalVm (snd run) = ResolvedVm
           else (outcomeOf n = ThrewOtherError \<or> n = MAX_SETUP_RETRIES)
                \<and> resolveInternalVm (snd run) = ResolvedNull
                \<and> (\<exists>earlier. fst run = earlier @ [LogDisabled (outcomeOf n = ThrewRetryError),
                                                    DisablePlugin, ProcessError])))"
proof -
  have c: "totalInitAttemptsCounter newLazyPluginVM = 1"
    by (simp add: newLazyPluginVM_def initVm_def)
  from retryPolicy_general [of outcomeOf newLazyPluginVM]
  have "retryPolicyHolds outcomeOf 1 (initializeWithRetries outcomeOf newLazyPluginVM)"
    by (simp add: c)
  then show ?thesis
    by (auto simp: retryPolicyHolds_def Let_def MAX_SETUP_RETRIES_def split: if_splits)
qed

text \<open>
  C6 when every attempt throws a RetryError: ten attempts, nine timers from 3 s to 768 s,
  and a handle that resolves to null.
\<close>

theorem lazy_vm_retry_policy_witness:
  "totalInitAttemptsCounter (snd (initializeWithRetries (\<lambda>k. ThrewRetryError) newLazyPluginVM)) = 10
   \<and> retryDelays (fst (initializeWithRetries (\<lambda>k. ThrewRetryError) newLazyPluginVM))
        = [3000, 6000, 12000, 24000, 48000, 96000, 192000, 384000, 768000]
   \<and> resolveInternalVm (snd (initializeWithRetries (\<lambda>k. ThrewRetryError) newLazyPluginVM)) = ResolvedNull"
proof -
  let ?run = "initializeWithRetries (\<lambda>k. ThrewRetryError) newLazyPluginVM"
  note policy = lazy_vm_retry_policy [of "\<lambda>k. ThrewRetryError", unfolded Let_def]
  from policy have fin: "(ThrewRetryError = ThrewOtherError \<or> totalInitAttemptsCounter (snd ?run) = MAX_SETUP_RETRIES)
      \<and> resolveInternalVm (snd ?run) = ResolvedNull"
    by (simp only: init_outcome.distinct if_False)
  then have n: "totalInitAttemptsCounter (snd ?run) = 10"
    by (simp add: MAX_SETUP_RETRIES_def)
  from fin have r: "resolveInternalVm (snd ?run) = ResolvedNull"
    by simp
  from policy have "retryDelays (fst ?run)
              = map (\<lambda>k. 1000 * (3 * 2 ^ (k - 1))) [1..<totalInitAttemptsCounter (snd ?run)]"
    by (elim conjE)
  then have d: "retryDelays (fst ?run) = map (\<lambda>k. 1000 * (3 * 2 ^ (k - 1))) [1..<10]"
    by (simp only: n)
  have "map (\<lambda>k. 1000 * (3 * 2 ^ (k - 1))) [1..<10]
          = [3000, 6000, 12000, 24000, 48000, 96000, 192000, 384000, 768000 :: nat]"
    by (simp add: upt_rec)
  with n d r show ?thesis by (simp only: simp_thms)
qed

section \<open>Properties of the distributed lock\<close>

text \<open>
  C9, as the code has it. The lock TTL is ttl * 1000 ms (60000 by default), the extension
  delay half of it and the retry delay a tenth. Acquiring the lock schedules an extension
  after L/2, and so does every successful extension. While not stopped: a failed extension
  gives up leadership and schedules tryToGetTheLock at once (delay 0); an acquisition
  refused with a LockError is retried after L/10; an acquisition that fails with any other
  error schedules nothing.
\<close>

theorem redlock_delays:
  "lockTTL defaultTtl = 60000 \<and> extendDelay defaultTtl = 30000 \<and> retryDelay defaultTtl = 6000
   \<and> 2 * extendDelay ttl = lockTTL ttl \<and> 10 * retryDelay ttl = lockTTL ttl
   \<and> timers (tryToGetTheLock ttl (LockGranted None) st) = timers st @ [(ExtendLock, extendDelay ttl)]
   \<and> weHaveTheLock (tryToGetTheLock ttl (LockGranted None) st)
   \<and> (\<not> stopped st \<longrightarrow>
        timers (extendLock ttl None st) = timers st @ [(ExtendLock, extendDelay ttl)]
        \<and> timers (extendLock ttl (Some error) st) = timers st @ [(TryToGetTheLock, 0)]
        \<and> \<not> weHaveTheLock (extendLock ttl (Some error) st)
        \<and> timers (tryToGetTheLock ttl (LockRefused LockError) st)
             = timers st @ [(TryToGetTheLock, retryDelay ttl)]
        \<and> \<not> weHaveTheLock (tryToGetTheLock ttl (LockRefused LockError) st)
        \<and> timers (tryToGetTheLock ttl (LockRefused OtherError) st) = timers st
        \<and> \<not> weHaveTheLock (tryToGetTheLock ttl (LockRefused OtherError) st))"
  by (simp add: lockTTL_def extendDelay_def retryDelay_def defaultTtl_def tryToGetTheLock_def
        extendLock_def lockFailed_def setLockTimeout_def)

text \<open>
  C9 from the state startRedlock leaves, with the default TTL.
\<close>

theorem redlock_delays_witness:
  "\<not> stopped startRedlock
   \<and> timers (tryToGetTheLock 60 (LockGranted None) startRedlock)
        = [(TryToGetTheLock, 0), (ExtendLock, 30000)]
   \<and> timers (extendLock 60 None startRedlock) = [(TryToGetTheLock, 0), (ExtendLock, 30000)]
   \<and> timers (extendLock 60 (Some LockError) startRedlock) = [(TryToGetTheLock, 0), (TryToGetTheLock, 0)]
   \<and> timers (tryToGetTheLock 60 (LockRefused LockError) startRedlock)
        = [(TryToGetTheLock, 0), (TryToGetTheLock, 6000)]"
proof -
  have s: "\<not> stopped startRedlock" "timers startRedlock = [(TryToGetTheLock, 0)]"
    by (simp_all add: startRedlock_def setLockTimeout_def)
  have d: "extendDelay 60 = 30000" "retryDelay 60 = 6000"
    by (simp_all add: extendDelay_def retryDelay_def lockTTL_def)
  from redlock_delays [of 60 startRedlock LockError] s d show ?thesis by simp
qed

text \<open>
  C9 as stated fails: an acquisition attempt that fails with an error other than a
  LockError is not retried. No timer is added to the one startRedlock had set.
\<close>

theorem redlock_other_error_cex:
  "timers (tryToGetTheLock defaultTtl (LockRefused OtherError) startRedlock) = [(TryToGetTheLock, 0)]
   \<and> \<not> stopped startRedlock
   \<and> \<not> weHaveTheLock (tryToGetTheLock defaultTtl (LockRefused OtherError) startRedlock)
   \<and> retryDelay defaultTtl = 6000"
  by (simp add: tryToGetTheLock_def lockFailed_def startRedlock_def setLockTimeout_def
        retryDelay_def lockTTL_def defaultTtl_def)

end
